theory Spec2Isabelle
  imports Main "HOL-Library.Sublist" "HOL-Library.AList" "HOL-Library.Word"
begin

section \<open>Go library functions used by the build engine\<close>

text \<open>
  Go strings are byte sequences; they are modelled as \<open>string\<close> (a list of bytes).
  The library functions below follow the Go standard library on ASCII text: bytes
  above 127 are treated as ordinary non-space, non-letter, non-digit bytes.
  All separators that the sources pass to \<open>Split\<close>, \<open>SplitN\<close>, \<open>TrimLeft\<close> and
  \<open>Trim\<close> are single bytes, so the separator is a \<open>char\<close> here.
\<close>

definition strings_HasPrefix :: "string \<Rightarrow> string \<Rightarrow> bool" where
  "strings_HasPrefix s p = prefix p s"

definition strings_HasSuffix :: "string \<Rightarrow> string \<Rightarrow> bool" where
  "strings_HasSuffix s p = suffix p s"

definition strings_TrimSuffix :: "string \<Rightarrow> string \<Rightarrow> string" where
  "strings_TrimSuffix s p = (if suffix p s then take (length s - length p) s else s)"

primrec strings_Contains :: "string \<Rightarrow> string \<Rightarrow> bool" where
  "strings_Contains [] sub = (sub = [])"
| "strings_Contains (c # s) sub = (prefix sub (c # s) \<or> strings_Contains s sub)"

text \<open>\<open>strings.Split(s, sep)\<close>: cut at every occurrence of the separator byte.\<close>

primrec strings_Split :: "string \<Rightarrow> char \<Rightarrow> string list" where
  "strings_Split [] sep = [[]]"
| "strings_Split (c # cs) sep =
     (if c = sep then [] # strings_Split cs sep
      else (case strings_Split cs sep of
              [] \<Rightarrow> [[c]]
            | x # xs \<Rightarrow> (c # x) # xs))"

text \<open>\<open>strings.SplitN(s, sep, n)\<close> for \<open>n \<ge> 0\<close>: at most \<open>n\<close> pieces, the last
  one being the unsplit remainder.\<close>

fun strings_SplitN :: "string \<Rightarrow> char \<Rightarrow> nat \<Rightarrow> string list" where
  "strings_SplitN s sep 0 = []"
| "strings_SplitN s sep (Suc 0) = [s]"
| "strings_SplitN [] sep (Suc (Suc n)) = [[]]"
| "strings_SplitN (c # cs) sep (Suc (Suc n)) =
     (if c = sep then [] # strings_SplitN cs sep (Suc n)
      else (case strings_SplitN cs sep (Suc (Suc n)) of
              [] \<Rightarrow> [[c]]
            | x # xs \<Rightarrow> (c # x) # xs))"

primrec strings_Join :: "string list \<Rightarrow> string \<Rightarrow> string" where
  "strings_Join [] sep = []"
| "strings_Join (x # xs) sep = (if xs = [] then x else x @ sep @ strings_Join xs sep)"

definition isSpace :: "char \<Rightarrow> bool" where
  "isSpace c = (c = CHR '' '' \<or> c = CHR 0x09 \<or> c = CHR 0x0A \<or> c = CHR 0x0B
                \<or> c = CHR 0x0C \<or> c = CHR 0x0D)"

definition strings_TrimLeft :: "string \<Rightarrow> char \<Rightarrow> string" where
  "strings_TrimLeft s c = dropWhile (\<lambda>x. x = c) s"

definition strings_Trim :: "string \<Rightarrow> char \<Rightarrow> string" where
  "strings_Trim s c = rev (dropWhile (\<lambda>x. x = c) (rev (dropWhile (\<lambda>x. x = c) s)))"

definition strings_TrimSpace :: "string \<Rightarrow> string" where
  "strings_TrimSpace s = rev (dropWhile isSpace (rev (dropWhile isSpace s)))"

definition toLowerChar :: "char \<Rightarrow> char" where
  "toLowerChar c =
     (case map_of (zip ''ABCDEFGHIJKLMNOPQRSTUVWXYZ'' ''abcdefghijklmnopqrstuvwxyz'') c of
        None \<Rightarrow> c
      | Some l \<Rightarrow> l)"

definition strings_ToLower :: "string \<Rightarrow> string" where
  "strings_ToLower s = map toLowerChar s"

subsection \<open>Package \<open>path\<close>\<close>

text \<open>\<open>path.Clean\<close> on the list of slash-separated elements: empty elements and
  \<open>.\<close> are dropped, \<open>..\<close> removes the element before it (at the root it is dropped,
  in a relative path with nothing left to remove it is kept).\<close>

fun cleanElems :: "bool \<Rightarrow> string list \<Rightarrow> string list \<Rightarrow> string list" where
  "cleanElems rooted out [] = rev out"
| "cleanElems rooted out (e # es) =
     (if e = [] \<or> e = ''.'' then cleanElems rooted out es
      else if e = ''..'' then
        (case out of
           [] \<Rightarrow> if rooted then cleanElems rooted [] es else cleanElems rooted [e] es
         | x # xs \<Rightarrow> if x = ''..'' then cleanElems rooted (e # out) es
                     else cleanElems rooted xs es)
      else cleanElems rooted (e # out) es)"

definition path_Clean :: "string \<Rightarrow> string" where
  "path_Clean p =
     (if p = [] then ''.''
      else
        let rooted = (hd p = CHR ''/'');
            elems = cleanElems rooted [] (strings_Split p (CHR ''/''))
        in if rooted then CHR ''/'' # strings_Join elems ''/''
           else if elems = [] then ''.'' else strings_Join elems ''/'')"

text \<open>\<open>path.Split\<close> cuts after the last slash; \<open>path.Dir\<close> cleans the first half.\<close>

definition afterLastSlash :: "string \<Rightarrow> string" where
  "afterLastSlash p = rev (takeWhile (\<lambda>c. c \<noteq> CHR ''/'') (rev p))"

definition path_Dir :: "string \<Rightarrow> string" where
  "path_Dir p = path_Clean (take (length p - length (afterLastSlash p)) p)"

definition path_Base :: "string \<Rightarrow> string" where
  "path_Base p =
     (if p = [] then ''.''
      else
        let q = rev (dropWhile (\<lambda>c. c = CHR ''/'') (rev p));
            l = afterLastSlash q
        in if l = [] then ''/'' else l)"

section \<open>The build orchestrator (\<open>internal/pkg/build/build.go\<close>)\<close>

text \<open>A Go \<open>error\<close> is its message; a run-time panic is kept apart from it.\<close>

datatype go_error = Err string | Panic string

text \<open>A Go \<open>map[string]string\<close> is an association list with distinct keys; \<open>nil\<close>
  maps are \<open>None\<close> where the code distinguishes them.\<close>

type_synonym gomap = "(string \<times> string) list"

subsection \<open>The conveyor retry loop of \<open>Full\<close>\<close>

text \<open>
  Lines 300--314 of \<open>build.go\<close>. The conveyor is an external collaborator:
  \<open>get k\<close> is the outcome of the \<open>k\<close>-th call of \<open>stage.c.Get\<close> (\<open>None\<close> for a nil
  error, \<open>Some msg\<close> for an error with message \<open>msg\<close>). The loop returns the error
  of the build step, if any, and the number of calls of \<open>Get\<close> made so far.
  \<open>attempt\<close> is a Go \<open>int\<close>.
\<close>

definition retryMarker :: string where
  "retryMarker = ''no descriptor found for reference''"

function conveyorGetLoop ::
  "(nat \<Rightarrow> string option) \<Rightarrow> nat \<Rightarrow> 64 word \<Rightarrow> go_error option \<times> nat" where
  "conveyorGetLoop get calls attempt =
     (case get calls of
        None \<Rightarrow> (None, Suc calls)
      | Some err \<Rightarrow>
          if \<not> strings_Contains err retryMarker \<or> attempt + 1 = 5
          then (Some (Err (''conveyor failed to get: '' @ err)), Suc calls)
          else conveyorGetLoop get (Suc calls) (attempt + 1))"
  by pat_completeness auto
termination
proof (relation "measure (\<lambda>(get, calls, attempt). unat (4 - attempt))")
  show "wf (measure (\<lambda>(get, calls, attempt). unat (4 - attempt)))"
    by simp
next
  fix get :: "nat \<Rightarrow> string option" and calls :: nat and attempt :: "64 word" and err :: string
  assume "\<not> (\<not> strings_Contains err retryMarker \<or> attempt + 1 = 5)"
  then have ne: "4 - attempt \<noteq> 0"
    by (auto simp: algebra_simps)
  have eq: "4 - (attempt + 1) = (4 - attempt) - 1"
    by simp
  have "unat ((4 - attempt) - 1) < unat (4 - attempt)"
    using ne by (rule measure_unat)
  then show "((get, Suc calls, attempt + 1), (get, calls, attempt))
      \<in> measure (\<lambda>(get, calls, attempt). unat (4 - attempt))"
    by (simp only: eq in_measure prod.case)
qed

declare conveyorGetLoop.simps [simp del]

subsection \<open>Data model\<close>

text \<open>
  The types of package \<open>types\<close> that the build engine and the parser use, with the
  fields the sources read and write. The embedded structs of \<open>types.Definition\<close>
  (\<open>ImageData\<close>, \<open>ImageScripts\<close>, \<open>BuildData\<close>, \<open>Scripts\<close>) are flattened into one
  record: \<open>Test\<close> is \<open>ImageData.ImageScripts.Test\<close> and \<open>BuildTest\<close> is
  \<open>BuildData.Scripts.Test\<close>. \<open>Header\<close> and \<open>CustomData\<close> are \<open>None\<close> when the Go map
  is nil.
\<close>

record Script =
  Args :: string
  Script :: string

record FileTransport =
  Src :: string
  Dst :: string

record Files =
  Files_Args :: string
  Files_Files :: "FileTransport list"

record Definition =
  Header :: "gomap option"
  Help :: Script
  Environment :: Script
  Runscript :: Script
  Test :: Script
  Startscript :: Script
  Labels :: gomap
  BuildData_Files :: "Files list"
  Arguments :: Script
  Pre :: Script
  Setup :: Script
  Post :: Script
  BuildTest :: Script
  CustomData :: "gomap option"
  Raw :: string
  FullRaw :: string
  AppOrder :: "string list"

text \<open>\<open>types.Options\<close>: \<open>ImgCache\<close> and \<open>EncryptionKeyInfo\<close> are pointers, of which
  only whether they are non-nil matters here.\<close>

record Options =
  Update :: bool
  Force :: bool
  TmpDir :: string
  Binds :: "string list"
  ImgCache :: bool
  EncryptionKeyInfo :: bool
  Tag :: string
  Digest :: string
  Arch :: string
  Sections :: "string \<Rightarrow> bool"

text \<open>\<open>types.Bundle\<close>.\<close>

record Bundle =
  RootfsPath :: string
  Bundle_TmpDir :: string
  Recipe :: Definition
  Opts :: Options

text \<open>Modelled from the spec: the method \<open>RunSection\<close> of \<open>types.Bundle\<close> is not
  part of the sources at hand. It answers from the options whether a section is to
  be run (\<open>sections\<close> may be all, none, or a whitelist); the field \<open>Sections\<close> of the
  options is that selection, as a predicate on section names.\<close>

definition RunSection :: "Bundle \<Rightarrow> string \<Rightarrow> bool" where
  "RunSection b s = Sections (Opts b) s"

datatype Assembler = SandboxAssembler bool | SIFAssembler string nat string

text \<open>A stage: \<open>stage_c\<close> tells whether the conveyor-packer is set.\<close>

record stage =
  stage_name :: string
  stage_b :: Bundle
  stage_c :: bool
  stage_a :: "Assembler option"

record Config =
  Dest :: string
  Format :: string
  NoCleanUp :: bool
  Conf_Opts :: Options

record Build =
  stages :: "stage list"
  Conf :: Config

text \<open>The part of the process state that the orchestrator changes: the umask and
  the paths it has removed.\<close>

record world =
  umask :: nat
  removed :: "string list"

subsection \<open>\<open>newBuild\<close>\<close>

text \<open>The collaborators of \<open>newBuild\<close> outside the sources at hand; \<open>Inl\<close> is an
  error message. \<open>mkdirTemp\<close> and \<open>newBundle\<close> are given the index of the stage they
  are called for; \<open>newBundle\<close> returns the rootfs path and the temporary directory of
  the bundle.\<close>

record MountEntry =
  Point :: string
  Mount_Options :: "string list"

record BuildEnv =
  fs_Abs :: "string \<Rightarrow> string + string"
  getMountInfoEntry :: "string + MountEntry list"
  mkdirTemp :: "nat \<Rightarrow> string \<Rightarrow> string + string"
  newBundle :: "nat \<Rightarrow> string \<Rightarrow> string \<Rightarrow> string + string \<times> string"
  findParentMountEntry :: "string \<Rightarrow> MountEntry list \<Rightarrow> string + MountEntry"
  conveyorPacker :: "Definition \<Rightarrow> string option"
  squashfs_GetPath :: "string + string"
  squashfs_GetProcs :: "string + nat"
  squashfs_GetMem :: "string + string"

text \<open>Reading a Go map: a missing key, or a nil map, gives the empty string.\<close>

definition mapIndex :: "gomap option \<Rightarrow> string \<Rightarrow> string" where
  "mapIndex m k = (case m of None \<Rightarrow> [] | Some al \<Rightarrow> (case map_of al k of None \<Rightarrow> [] | Some v \<Rightarrow> v))"

text \<open>The check of the mount options of the temporary directory (lines 166--173): the
  first \<open>noexec\<close> is an error, \<open>nodev\<close> only a warning.\<close>

definition quoted :: "string \<Rightarrow> string" where
  "quoted s = CHR 0x27 # s @ [CHR 0x27]"

definition tmpdirNoexec :: "MountEntry \<Rightarrow> go_error option" where
  "tmpdirNoexec e =
     (if ''noexec'' \<in> set (Mount_Options e)
      then Some (Err (quoted ''noexec'' @ '' mount option set on '' @ Point e
                      @ '', temporary root filesystem won'' @ [CHR 0x27]
                      @ ''t be usable at this location''))
      else None)"

text \<open>The body of the loop over the definitions (lines 109--187), for the definition
  \<open>d\<close> at index \<open>i\<close>: the new stage and the new value of \<open>sandboxCopy\<close>, or the error
  returned.\<close>

definition newStage ::
  "BuildEnv \<Rightarrow> Config \<Rightarrow> MountEntry list \<Rightarrow> int \<Rightarrow> bool \<Rightarrow> nat \<Rightarrow> Definition
     \<Rightarrow> go_error + stage \<times> bool" where
  "newStage env conf entries lastStageIndex sandboxCopy i d =
     (if Header d = None then Inl (Err ''multiple stages detected, all must have headers'')
      else
        let rootfsParent = (if Format conf = ''sandbox'' then path_Dir (Dest conf)
                            else TmpDir (Conf_Opts conf))
        in case mkdirTemp env i rootfsParent of
             Inl e \<Rightarrow> Inl (Err (''failed to create build parent dir: '' @ e))
           | Inr parentPath \<Rightarrow>
        (case newBundle env i parentPath (TmpDir (Conf_Opts conf)) of
             Inl e \<Rightarrow> if EncryptionKeyInfo (Conf_Opts conf)
                      then Inl (Panic ''nil pointer dereference'') else Inl (Err e)
           | Inr (rootfs, tmp) \<Rightarrow>
        let s = \<lparr> stage_name = mapIndex (Header d) ''stage'',
                  stage_b = \<lparr> RootfsPath = rootfs, Bundle_TmpDir = tmp, Recipe = d,
                              Opts = Conf_Opts conf \<rparr>,
                  stage_c = False, stage_a = None \<rparr>
        in (case (if Format conf = ''sandbox'' \<and> lastStageIndex = int i
                 then if \<not> strings_HasPrefix rootfs parentPath then Inr True
                      else (case findParentMountEntry env rootfsParent entries of
                              Inl e \<Rightarrow> Inl (Err (''failed to find mount point for ''
                                                  @ rootfsParent @ '': '' @ e))
                            | Inr destEntry \<Rightarrow>
                                if ''noexec'' \<in> set (Mount_Options destEntry)
                                then Inl (Err (quoted ''noexec'' @ '' mount option set on ''
                                               @ Point destEntry @ '', sandbox '' @ Dest conf
                                               @ '' won'' @ [CHR 0x27]
                                               @ ''t be usable at this location''))
                                else Inr sandboxCopy)
                 else Inr sandboxCopy) of
             Inl e \<Rightarrow> Inl e
           | Inr sandboxCopy' \<Rightarrow>
        (case (if lastStageIndex = int i
               then (case findParentMountEntry env (TmpDir (Conf_Opts conf)) entries of
                       Inl e \<Rightarrow> Some (Err (''failed to find mount point for ''
                                            @ TmpDir (Conf_Opts conf) @ '': '' @ e))
                     | Inr tmpdirEntry \<Rightarrow> tmpdirNoexec tmpdirEntry)
               else None) of
             Some e \<Rightarrow> Inl e
           | None \<Rightarrow>
        if \<not> Update (Conf_Opts conf) \<or> Force (Conf_Opts conf)
        then (case conveyorPacker env d of
                None \<Rightarrow> Inr (s\<lparr>stage_c := True\<rparr>, sandboxCopy')
              | Some e \<Rightarrow> Inl (Err (''unable to get conveyorpacker: '' @ e)))
        else Inr (s, sandboxCopy')))))"

fun newStages ::
  "BuildEnv \<Rightarrow> Config \<Rightarrow> MountEntry list \<Rightarrow> int \<Rightarrow> bool \<Rightarrow> nat \<Rightarrow> stage list
     \<Rightarrow> Definition list \<Rightarrow> go_error + stage list \<times> bool" where
  "newStages env conf entries lastStageIndex sandboxCopy i acc [] = Inr (acc, sandboxCopy)"
| "newStages env conf entries lastStageIndex sandboxCopy i acc (d # ds) =
     (case newStage env conf entries lastStageIndex sandboxCopy i d of
        Inl e \<Rightarrow> Inl e
      | Inr (s, sandboxCopy') \<Rightarrow>
          newStages env conf entries lastStageIndex sandboxCopy' (Suc i) (acc @ [s]) ds)"

text \<open>The assembler of the last stage (lines 190--215). With no stage at all the
  index \<open>lastStageIndex\<close> is \<open>-1\<close> and the assignment panics.\<close>

definition setAssembler :: "BuildEnv \<Rightarrow> Config \<Rightarrow> bool \<Rightarrow> stage list \<Rightarrow> go_error + stage list" where
  "setAssembler env conf sandboxCopy sts =
     (if Format conf = ''sandbox'' then
        (if sts = [] then Inl (Panic ''index out of range [-1]'')
         else Inr (butlast sts @ [(last sts)\<lparr>stage_a := Some (SandboxAssembler sandboxCopy)\<rparr>]))
      else if Format conf = ''sif'' then
        (case squashfs_GetPath env of
           Inl e \<Rightarrow> Inl (Err (''while searching for mksquashfs: '' @ e))
         | Inr mksquashfsPath \<Rightarrow>
        (case squashfs_GetProcs env of
           Inl e \<Rightarrow> Inl (Err (''while searching for mksquashfs processor limits: '' @ e))
         | Inr mksquashfsProcs \<Rightarrow>
        (case squashfs_GetMem env of
           Inl e \<Rightarrow> Inl (Err (''while searching for mksquashfs mem limits: '' @ e))
         | Inr mksquashfsMem \<Rightarrow>
        (if sts = [] then Inl (Panic ''index out of range [-1]'')
         else Inr (butlast sts @ [(last sts)\<lparr>stage_a :=
                     Some (SIFAssembler mksquashfsPath mksquashfsProcs mksquashfsMem)\<rparr>])))))
      else Inl (Err (''unrecognized output format '' @ Format conf)))"

text \<open>\<open>newBuild\<close>: the umask is set to \<open>0o002\<close> on entry and the deferred call
  restores the old one on every return.\<close>

definition newBuild_body :: "BuildEnv \<Rightarrow> Definition list \<Rightarrow> Config \<Rightarrow> go_error + Build" where
  "newBuild_body env defs conf0 =
     (case fs_Abs env (Dest conf0) of
        Inl e \<Rightarrow> Inl (Err (''failed to determine absolute path for '' @ [CHR 0x22] @ Dest conf0
                        @ [CHR 0x22] @ '': '' @ e))
      | Inr dest \<Rightarrow>
     let conf1 = conf0\<lparr>Dest := dest\<rparr>;
         conf = (if Update (Conf_Opts conf1) then conf1\<lparr>Format := ''sandbox''\<rparr> else conf1)
     in (case getMountInfoEntry env of
          Inl e \<Rightarrow> Inl (Err (''failed to retrieve mount information: '' @ e))
        | Inr entries \<Rightarrow>
     (case newStages env conf entries (int (length defs) - 1) False 0 [] defs of
          Inl e \<Rightarrow> Inl e
        | Inr (sts, sandboxCopy) \<Rightarrow>
     (case setAssembler env conf sandboxCopy sts of
          Inl e \<Rightarrow> Inl e
        | Inr sts' \<Rightarrow> Inr \<lparr> stages = sts', Conf = conf \<rparr>))))"

definition newBuild ::
  "BuildEnv \<Rightarrow> Definition list \<Rightarrow> Config \<Rightarrow> world \<Rightarrow> (go_error + Build) \<times> world" where
  "newBuild env defs conf w =
     (let oldumask = umask w;
          w1 = w\<lparr>umask := 2\<rparr>;
          r = newBuild_body env defs conf
      in (r, w1\<lparr>umask := oldumask\<rparr>))"

subsection \<open>\<open>Full\<close>\<close>

text \<open>\<open>haveBindFor\<close>: is there a bind path whose destination is the given one.\<close>

primrec haveBindFor :: "string list \<Rightarrow> string \<Rightarrow> bool" where
  "haveBindFor [] destination = False"
| "haveBindFor (bindpath # binds) destination =
     (let splitted = strings_Split bindpath (CHR '':'');
          src = hd splitted;
          dst = (if length splitted > 1 then splitted ! 1 else src)
      in if destination = dst then True else haveBindFor binds destination)"

text \<open>
  The collaborators that \<open>Full\<close> calls for one stage, outside the sources at hand:
  each field is the outcome of one call (\<open>None\<close> for a nil error, \<open>Inl\<close> for an
  error); \<open>get_result k\<close> is the outcome of the \<open>k\<close>-th call of the conveyor's \<open>Get\<close>
  for this stage.
\<close>

record StageRun =
  pre_result :: "string option"
  localPacker_result :: "string option"
  localPack_result :: "string option"
  get_result :: "nat \<Rightarrow> string option"
  pack_result :: "string option"
  handlePost_result :: "string + string"
  copyFilesFrom_result :: "string option"
  setup_result :: "string option"
  copyFiles_result :: "string option"
  resolv_result :: "string + string"
  hosts_result :: "string + string"
  post_result :: "string option"
  metadata_result :: "string option"
  test_result :: "string option"

text \<open>Lines 281--320: the local packer when updating, the conveyor (with its retry
  loop) and the packer otherwise.\<close>

definition bootstrapStage :: "Build \<Rightarrow> StageRun \<Rightarrow> nat \<Rightarrow> stage \<Rightarrow> go_error option" where
  "bootstrapStage bld r i st =
     (let update = (Update (Opts (stage_b st)) \<and> \<not> Force (Opts (stage_b st))
                    \<and> int i = int (length (stages bld)) - 1)
      in if update then
           (case localPacker_result r of
              Some e \<Rightarrow> Some (Err e)
            | None \<Rightarrow> map_option Err (localPack_result r))
         else if \<not> ImgCache (Conf_Opts (Conf bld)) then Some (Err ''undefined image cache'')
         else if \<not> stage_c st then Some (Panic ''nil pointer dereference'')
         else
           (case fst (conveyorGetLoop (get_result r) 0 0) of
              Some e \<Rightarrow> Some e
            | None \<Rightarrow> map_option (\<lambda>e. Err (''packer failed to pack: '' @ e)) (pack_result r)))"

text \<open>Lines 353--372: the session copies of \<open>/etc/resolv.conf\<close> and \<open>/etc/hosts\<close>;
  the result is the error returned, if any, and the list of files whose removal has
  been deferred by then.\<close>

definition stageFiles :: "StageRun \<Rightarrow> stage \<Rightarrow> go_error option \<times> string list" where
  "stageFiles r st =
     (case (if \<not> haveBindFor (Binds (Opts (stage_b st))) ''/etc/resolv.conf''
            then resolv_result r else Inr []) of
        Inl e \<Rightarrow> (Some (Err e), [])
      | Inr sessionResolv \<Rightarrow>
     (let d1 = (if sessionResolv \<noteq> [] then [sessionResolv] else [])
      in case (if \<not> haveBindFor (Binds (Opts (stage_b st))) ''/etc/hosts''
               then hosts_result r else Inr []) of
           Inl e \<Rightarrow> (Some (Err e), d1)
         | Inr sessionHosts \<Rightarrow>
             (None, d1 @ (if sessionHosts \<noteq> [] then [sessionHosts] else []))))"

text \<open>The body of the loop over the stages (lines 277--387): the error returned, if
  any, and the files whose removal was deferred, in the order of the \<open>defer\<close>
  statements.\<close>

definition runStage :: "Build \<Rightarrow> StageRun \<Rightarrow> nat \<Rightarrow> stage \<Rightarrow> go_error option \<times> string list" where
  "runStage bld r i st =
     (case pre_result r of
        Some e \<Rightarrow> (Some (Err e), [])
      | None \<Rightarrow>
     (case bootstrapStage bld r i st of
        Some e \<Rightarrow> (Some e, [])
      | None \<Rightarrow>
     (case handlePost_result r of
        Inl e \<Rightarrow> (Some (Err (''unable to get app post information: '' @ e)), [])
      | Inr appPost \<Rightarrow>
     (case (if RunSection (stage_b st) ''files'' then copyFilesFrom_result r else None) of
        Some e \<Rightarrow> (Some (Err (''unable to copy files from stage to container fs: '' @ e)), [])
      | None \<Rightarrow>
     (case setup_result r of
        Some e \<Rightarrow> (Some (Err e), [])
      | None \<Rightarrow>
     (case (if RunSection (stage_b st) ''files'' then copyFiles_result r else None) of
        Some e \<Rightarrow> (Some (Err (''unable to copy files from host to container fs: '' @ e)), [])
      | None \<Rightarrow>
     (case stageFiles r st of
        (Some e, deferred) \<Rightarrow> (Some e, deferred)
      | (None, deferred) \<Rightarrow>
     (case (if Script (Post (Recipe (stage_b st))) @ appPost \<noteq> [] then post_result r else None) of
        Some e \<Rightarrow> (Some (Err (''while running engine: '' @ e)), deferred)
      | None \<Rightarrow>
     (case metadata_result r of
        Some e \<Rightarrow> (Some (Err (''while inserting metadata to bundle: '' @ e)), deferred)
      | None \<Rightarrow>
     (case test_result r of
        Some e \<Rightarrow> (Some (Err (''failed to execute %test script: '' @ e)), deferred)
      | None \<Rightarrow> (None, deferred)))))))))))"

fun runStages ::
  "Build \<Rightarrow> (nat \<Rightarrow> StageRun) \<Rightarrow> nat \<Rightarrow> stage list \<Rightarrow> string list
     \<Rightarrow> go_error option \<times> string list" where
  "runStages bld env i [] deferred = (None, deferred)"
| "runStages bld env i (st # rest) deferred =
     (case runStage bld (env i) i st of
        (Some e, d) \<Rightarrow> (Some e, deferred @ d)
      | (None, d) \<Rightarrow> runStages bld env (Suc i) rest (deferred @ d))"

text \<open>\<open>cleanUp\<close> removes the directories of every bundle unless \<open>NoCleanUp\<close> is set.\<close>

definition cleanUp :: "Build \<Rightarrow> world \<Rightarrow> world" where
  "cleanUp bld w =
     (if NoCleanUp (Conf bld) then w
      else w\<lparr>removed := removed w
                @ concat (map (\<lambda>s. [RootfsPath (stage_b s), Bundle_TmpDir (stage_b s)])
                              (stages bld))\<rparr>)"

text \<open>
  \<open>Full\<close> (lines 259--399), without the goroutine that waits for a signal. The
  deferred calls run on every return, last deferred first: the removal of the
  session files, then \<open>cleanUp\<close>. The umask is set before the loop (line 273) and
  set back by the statement after the loop (line 390), which the returns inside the
  loop do not reach. \<open>assemble_result\<close> is the outcome of the assembler.
\<close>

definition Full ::
  "Build \<Rightarrow> (nat \<Rightarrow> StageRun) \<Rightarrow> string option \<Rightarrow> world \<Rightarrow> go_error option \<times> world" where
  "Full bld env assemble_result w =
     (let oldumask = umask w;
          w1 = w\<lparr>umask := 2\<rparr>
      in case runStages bld env 0 (stages bld) [] of
           (Some e, deferred) \<Rightarrow>
             (Some e, cleanUp bld (w1\<lparr>removed := removed w1 @ rev deferred\<rparr>))
         | (None, deferred) \<Rightarrow>
             let w2 = w1\<lparr>umask := oldumask\<rparr>;
                 res = (if stages bld = [] then Some (Panic ''index out of range [-1]'')
                        else map_option Err assemble_result)
             in (res, cleanUp bld (w2\<lparr>removed := removed w2 @ rev deferred\<rparr>)))"

subsection \<open>Zero values and a sample build\<close>

text \<open>The Go zero values of the records, and a one-stage build whose collaborators
  all succeed, used to instantiate the properties below.\<close>

definition zeroScript :: Script where
  "zeroScript = \<lparr> Args = [], Script = [] \<rparr>"

definition zeroDefinition :: Definition where
  "zeroDefinition =
     \<lparr> Header = None, Help = zeroScript, Environment = zeroScript, Runscript = zeroScript,
       Test = zeroScript, Startscript = zeroScript, Labels = [], BuildData_Files = [],
       Arguments = zeroScript, Pre = zeroScript, Setup = zeroScript, Post = zeroScript,
       BuildTest = zeroScript, CustomData = None, Raw = [], FullRaw = [], AppOrder = [] \<rparr>"

definition sampleOptions :: Options where
  "sampleOptions =
     \<lparr> Update = False, Force = False, TmpDir = ''/tmp'', Binds = [], ImgCache = True,
       EncryptionKeyInfo = False, Tag = [], Digest = [], Arch = ''amd64'',
       Sections = (\<lambda>s. True) \<rparr>"

definition sampleStage :: stage where
  "sampleStage =
     \<lparr> stage_name = [],
       stage_b = \<lparr> RootfsPath = ''/tmp/build-temp-1/rootfs'', Bundle_TmpDir = ''/tmp/bundle-temp-1'',
                   Recipe = zeroDefinition\<lparr>Header := Some [(''bootstrap'', ''docker'')]\<rparr>,
                   Opts = sampleOptions \<rparr>,
       stage_c = True,
       stage_a = Some (SIFAssembler ''/usr/bin/mksquashfs'' 0 [])\<rparr>"

definition sampleBuild :: Build where
  "sampleBuild =
     \<lparr> stages = [sampleStage],
       Conf = \<lparr> Dest = ''/out/image.sif'', Format = ''sif'', NoCleanUp = False,
                Conf_Opts = sampleOptions \<rparr> \<rparr>"

definition sampleRun :: StageRun where
  "sampleRun =
     \<lparr> pre_result = None, localPacker_result = None, localPack_result = None,
       get_result = (\<lambda>k. None), pack_result = None, handlePost_result = Inr [],
       copyFilesFrom_result = None, setup_result = None, copyFiles_result = None,
       resolv_result = Inr ''/tmp/bundle-temp-1/resolv.conf'',
       hosts_result = Inr ''/tmp/bundle-temp-1/hosts'',
       post_result = None, metadata_result = None, test_result = None \<rparr>"

subsection \<open>Predicates used to state the properties\<close>

text \<open>An outcome of \<open>Get\<close> is retryable when it is an error whose message contains
  the marker.\<close>

definition retryable :: "string option \<Rightarrow> bool" where
  "retryable r = (case r of None \<Rightarrow> False | Some err \<Rightarrow> strings_Contains err retryMarker)"

text \<open>Collaborators of \<open>newBuild\<close> that all succeed, on a mount table with the single
  entry \<open>/\<close>.\<close>

definition sampleEnv :: BuildEnv where
  "sampleEnv =
     \<lparr> fs_Abs = (\<lambda>p. Inr p),
       getMountInfoEntry = Inr [\<lparr> Point = ''/'', Mount_Options = [''rw''] \<rparr>],
       mkdirTemp = (\<lambda>i parent. Inr (parent @ ''/build-temp-'' @ replicate (Suc i) (CHR ''1''))),
       newBundle = (\<lambda>i parent tmp. Inr (parent @ ''/rootfs'', tmp @ ''/bundle-temp'')),
       findParentMountEntry = (\<lambda>p entries. Inr \<lparr> Point = ''/'', Mount_Options = [''rw''] \<rparr>),
       conveyorPacker = (\<lambda>d. None),
       squashfs_GetPath = Inr ''/usr/bin/mksquashfs'',
       squashfs_GetProcs = Inr 0,
       squashfs_GetMem = Inr [] \<rparr>"

definition sampleConfig :: Config where
  "sampleConfig =
     \<lparr> Dest = ''/out/image.sif'', Format = ''sif'', NoCleanUp = False,
       Conf_Opts = sampleOptions \<rparr>"

section \<open>The squashfuse image driver (\<open>internal/pkg/image/driver/squashfuse/driver.go\<close>)\<close>

subsection \<open>Package \<open>strconv\<close>\<close>

definition digitChar :: "nat \<Rightarrow> char" where
  "digitChar d = ''0123456789'' ! d"

text \<open>\<open>strconv.FormatUint(n, 10)\<close>.\<close>

fun strconv_FormatUint :: "nat \<Rightarrow> string" where
  "strconv_FormatUint n =
     (if n < 10 then [digitChar n]
      else strconv_FormatUint (n div 10) @ [digitChar (n mod 10)])"

declare strconv_FormatUint.simps [simp del]

definition isDigit :: "char \<Rightarrow> bool" where
  "isDigit c = ((48::nat) \<le> of_char c \<and> of_char c \<le> (57::nat))"

definition digitsValue :: "string \<Rightarrow> nat" where
  "digitsValue ds = foldl (\<lambda>n c. n * 10 + (of_char c - 48)) 0 ds"

text \<open>The value returned by \<open>strconv.Atoi\<close> (the caller drops the error): an optional
  sign and decimal digits; \<open>0\<close> on a syntax error, the nearest 64-bit integer when
  out of range.\<close>

definition strconv_Atoi :: "string \<Rightarrow> int" where
  "strconv_Atoi s =
     (let neg = (s \<noteq> [] \<and> hd s = CHR ''-'');
          ds = (if s \<noteq> [] \<and> (hd s = CHR ''+'' \<or> hd s = CHR ''-'') then tl s else s)
      in if ds = [] \<or> \<not> list_all isDigit ds then 0
         else if neg then - int (min (digitsValue ds) (2 ^ 63))
         else int (min (digitsValue ds) (2 ^ 63 - 1)))"

subsection \<open>\<open>Mount\<close>\<close>

record MountParams =
  Source :: string
  Target :: string
  Offset :: "64 word"

text \<open>The fields of \<open>exec.Cmd\<close> that \<open>Mount\<close> sets. \<open>exec.Command\<close> puts the name of
  the program in front of the arguments. Entry \<open>i\<close> of \<open>ExtraFiles\<close> is the file
  descriptor (a \<open>uintptr\<close>) that becomes descriptor \<open>3 + i\<close> of the child.\<close>

record Cmd =
  Cmd_Path :: string
  Cmd_Args :: "string list"
  ExtraFiles :: "64 word list"
  AmbientCaps :: "string list"

definition exec_Command :: "string \<Rightarrow> string list \<Rightarrow> Cmd" where
  "exec_Command name arg =
     \<lparr> Cmd_Path = name, Cmd_Args = name # arg, ExtraFiles = [], AmbientCaps = [] \<rparr>"

text \<open>Lines 59--78: the command that \<open>Mount\<close> starts.\<close>

definition mountCmd :: "string \<Rightarrow> MountParams \<Rightarrow> Cmd" where
  "mountCmd cmdpath params =
     (let optsStr = ''offset='' @ strconv_FormatUint (unat (Offset params));
          srcPath = (if path_Dir (Source params) = ''/proc/self/fd''
                     then ''/proc/self/fd/3'' else Source params);
          cmd = exec_Command cmdpath [''-f'', ''-o'', optsStr, srcPath, Target params];
          cmd1 = (if path_Dir (Source params) = ''/proc/self/fd''
                  then cmd\<lparr>ExtraFiles := [of_int (strconv_Atoi (path_Base (Source params)))]\<rparr>
                  else cmd)
      in cmd1\<lparr>AmbientCaps := [''CAP_SYS_ADMIN'']\<rparr>)"

text \<open>What one round of the poll loop observes: the child is gone (with the error of
  \<open>Wait\<close> and its standard error), the mount table cannot be read, or the mount
  table.\<close>

datatype PollObs = ProcessGone string string | MountInfoError string | MountInfo "MountEntry list"

text \<open>Lines 87--111: times are in milliseconds. The result is the error, if any, and
  whether the child was killed by \<open>Stop\<close>.\<close>

function pollLoop :: "(nat \<Rightarrow> PollObs) \<Rightarrow> string \<Rightarrow> nat \<Rightarrow> nat \<Rightarrow> go_error option \<times> bool" where
  "pollLoop obs target k totTime =
     (if totTime < 2000 then
        (case obs k of
           ProcessGone err stderr \<Rightarrow>
             (Some (Err (''squashfuse failed: '' @ err @ '': '' @ stderr)), False)
         | MountInfoError err \<Rightarrow>
             (Some (Err (''squashfuse failure to get mount info: '' @ err)), True)
         | MountInfo entries \<Rightarrow>
             if list_ex (\<lambda>entry. Point entry = target) entries then (None, False)
             else pollLoop obs target (Suc k) (totTime + 25))
      else (Some (Err (''squashfuse failed to mount '' @ target @ '' in 2s'')), True))"
  by pat_completeness auto
termination
  by (relation "measure (\<lambda>(obs, target, k, totTime). 2000 - totTime)") auto

declare pollLoop.simps [simp del]

text \<open>\<open>Mount\<close>: \<open>start\<close> is the outcome of \<open>cmd.Start\<close> (an error with the standard error
  output, or whether a process was started). The result is the command handed to
  \<open>Start\<close>, the error, and whether the child was killed.\<close>

definition Mount ::
  "string \<Rightarrow> MountParams \<Rightarrow> (string \<times> string) + bool \<Rightarrow> (nat \<Rightarrow> PollObs)
     \<Rightarrow> Cmd \<times> go_error option \<times> bool" where
  "Mount cmdpath params start obs =
     (let cmd = mountCmd cmdpath params
      in case start of
           Inl (err, stderr) \<Rightarrow>
             (cmd, Some (Err (''squashfuse Start failed: '' @ err @ '': '' @ stderr)), False)
         | Inr started \<Rightarrow>
             if \<not> started then (cmd, Some (Err ''no squashfuse process started''), False)
             else (cmd, pollLoop obs (Target params) 0 0))"

section \<open>The recipe parser (\<open>pkg/build/types/parser\<close>)\<close>

subsection \<open>Regular expressions\<close>

text \<open>
  The regular expressions of the parser, with the leftmost-first semantics of Go's
  \<open>regexp\<close>: among the matches that start at the leftmost possible position, the one
  a backtracking search finds first. \<open>rmatch r s\<close> lists the inputs left after each
  way of matching \<open>r\<close> at the start of \<open>s\<close>, in the order of the backtracking search:
  the left alternative first, repetitions greedy. An iteration of a repetition that
  consumes nothing is not continued.
\<close>

datatype re =
    Lit char
  | Class "char \<Rightarrow> bool"
  | Seq re re
  | Alt re re
  | Star re

function rmatch :: "re \<Rightarrow> string \<Rightarrow> string list" where
  "rmatch (Lit c) s = (case s of [] \<Rightarrow> [] | x # xs \<Rightarrow> if x = c then [xs] else [])"
| "rmatch (Class P) s = (case s of [] \<Rightarrow> [] | x # xs \<Rightarrow> if P x then [xs] else [])"
| "rmatch (Seq a b) s = concat (map (rmatch b) (rmatch a s))"
| "rmatch (Alt a b) s = rmatch a s @ rmatch b s"
| "rmatch (Star a) s =
     concat (map (\<lambda>s'. if length s' < length s then rmatch (Star a) s' else [])
                 (rmatch a s)) @ [s]"
  by pat_completeness auto
termination
  by (relation "measure size <*lex*> measure length") auto

definition Plus :: "re \<Rightarrow> re" where
  "Plus r = Seq r (Star r)"

text \<open>\<open>FindAllString(s, -1)\<close> for an expression that matches no empty string: the
  leftmost match, then the search goes on behind it.\<close>

function regexp_FindAllString :: "re \<Rightarrow> string \<Rightarrow> string list" where
  "regexp_FindAllString r s =
     (case rmatch r s of
        [] \<Rightarrow> (case s of [] \<Rightarrow> [] | x # xs \<Rightarrow> regexp_FindAllString r xs)
      | rest # _ \<Rightarrow>
          if length rest < length s
          then take (length s - length rest) s # regexp_FindAllString r rest
          else (case s of [] \<Rightarrow> [] | x # xs \<Rightarrow> regexp_FindAllString r xs))"
  by pat_completeness auto
termination
  by (relation "measure (\<lambda>(r, s). length s)") auto

declare regexp_FindAllString.simps [simp del]

text \<open>The character classes \<open>\s\<close> and \<open>\w\<close> of Go's \<open>regexp\<close>.\<close>

definition reSpace :: "char \<Rightarrow> bool" where
  "reSpace c = (c = CHR '' '' \<or> c = CHR 0x09 \<or> c = CHR 0x0A \<or> c = CHR 0x0C \<or> c = CHR 0x0D)"

definition isUpper :: "char \<Rightarrow> bool" where
  "isUpper c = ((65::nat) \<le> of_char c \<and> of_char c \<le> (90::nat))"

definition isLower :: "char \<Rightarrow> bool" where
  "isLower c = ((97::nat) \<le> of_char c \<and> of_char c \<le> (122::nat))"

definition reWord :: "char \<Rightarrow> bool" where
  "reWord c = (isDigit c \<or> isUpper c \<or> isLower c \<or> c = CHR ''_'')"

definition dquote :: char where
  "dquote = CHR 0x22"

definition squote :: char where
  "squote = CHR 0x27"

text \<open>
  \<open>fileSplitter\<close> (line 31):
  \<^verbatim>\<open>([^\s"']*{{\s*\w+\s*}}*[^\s{}"']*)+|([^\s"']+|"([^"]*)"|'([^']*))\<close>.
  The braces are literal, so \<^verbatim>\<open>}}*\<close> is one closing brace followed by any number
  of them.
\<close>

definition notSpaceQuote :: "char \<Rightarrow> bool" where
  "notSpaceQuote c = (\<not> reSpace c \<and> c \<noteq> dquote \<and> c \<noteq> squote)"

definition notSpaceBraceQuote :: "char \<Rightarrow> bool" where
  "notSpaceBraceQuote c =
     (\<not> reSpace c \<and> c \<noteq> CHR ''{'' \<and> c \<noteq> CHR ''}'' \<and> c \<noteq> dquote \<and> c \<noteq> squote)"

definition fileSplitter :: re where
  "fileSplitter =
     Alt (Plus (Seq (Star (Class notSpaceQuote))
               (Seq (Lit (CHR ''{''))
               (Seq (Lit (CHR ''{''))
               (Seq (Star (Class reSpace))
               (Seq (Plus (Class reWord))
               (Seq (Star (Class reSpace))
               (Seq (Lit (CHR ''}''))
               (Seq (Star (Lit (CHR ''}'')))
                    (Star (Class notSpaceBraceQuote)))))))))))
         (Alt (Plus (Class notSpaceQuote))
         (Alt (Seq (Lit dquote) (Seq (Star (Class (\<lambda>c. c \<noteq> dquote))) (Lit dquote)))
              (Seq (Lit squote) (Star (Class (\<lambda>c. c \<noteq> squote))))))"

subsection \<open>Errors and tables\<close>

text \<open>The errors of the parser: the two sentinel values, the
  \<open>InvalidSectionError\<close> with its sections, the errors made with \<open>fmt.Errorf\<close>, and
  run-time panics.\<close>

datatype parser_error =
    errEmptyDefinition
  | InvalidSectionError "string list"
  | Errorf string
  | ParserPanic string

definition newline :: char where
  "newline = CHR 0x0A"

definition backslash :: char where
  "backslash = CHR 0x5C"

definition validSections :: "string list" where
  "validSections = [''help'', ''setup'', ''files'', ''labels'', ''environment'', ''pre'',
     ''post'', ''runscript'', ''test'', ''startscript'', ''arguments'']"

definition appSections :: "string list" where
  "appSections = [''appinstall'', ''applabels'', ''appfiles'', ''appenv'', ''apptest'',
     ''apphelp'', ''apprun'', ''appstart'']"

definition validHeaders :: "string list" where
  "validHeaders = [''bootstrap'', ''from'', ''includecmd'', ''mirrorurl'', ''updateurl'',
     ''osversion'', ''include'', ''library'', ''registry'', ''namespace'', ''stage'',
     ''product'', ''user'', ''regcode'', ''productpgp'', ''registerurl'', ''modules'',
     ''otherurl&n'', ''fingerprints'', ''confurl'', ''setopt'', ''target'', ''frontend'',
     ''filename'', ''buildargs'']"

subsection \<open>The scanner\<close>

text \<open>\<open>bufio.ScanLines\<close>: the advance and the line (\<open>None\<close> for a nil token, which
  asks for more data).\<close>

definition dropCR :: "string \<Rightarrow> string" where
  "dropCR s = (if s \<noteq> [] \<and> last s = CHR 0x0D then butlast s else s)"

definition bufio_ScanLines :: "string \<Rightarrow> bool \<Rightarrow> nat \<times> string option" where
  "bufio_ScanLines data atEOF =
     (if atEOF \<and> data = [] then (0, None)
      else if newline \<in> set data then
        (let i = length (takeWhile (\<lambda>c. c \<noteq> newline) data)
         in (i + 1, Some (dropCR (take i data))))
      else if atEOF then (length data, Some (dropCR data))
      else (0, None))"

text \<open>The token of \<open>bufio.ScanWords(line, true)\<close>: the first word of the line, \<open>None\<close>
  when the line has none.\<close>

definition bufio_ScanWords :: "string \<Rightarrow> string option" where
  "bufio_ScanWords line =
     (let rest = dropWhile isSpace line
      in if rest = [] then None else Some (takeWhile (\<lambda>c. \<not> isSpace c) rest))"

text \<open>\<open>retbuf.Bytes()\<close> is nil as long as nothing was written to the buffer.\<close>

definition Bytes :: "string \<Rightarrow> string option" where
  "Bytes retbuf = (if retbuf = [] then None else Some retbuf)"

text \<open>\<open>scanDefinitionFile\<close>, the split function: the loop over the lines of \<open>data\<close>
  (lines 74--120) and the statements behind it. The result is the advance and the
  token; \<open>(0, None)\<close> asks for more data.\<close>

function scanDefinitionFile_loop ::
  "string \<Rightarrow> bool \<Rightarrow> nat \<Rightarrow> bool \<Rightarrow> string \<Rightarrow> nat \<times> string option" where
  "scanDefinitionFile_loop data atEOF advance inSection retbuf =
     (if advance < length data then
        (case bufio_ScanLines (drop advance data) atEOF of
           (a, None) \<Rightarrow> (0, None)
         | (a, Some line) \<Rightarrow>
             let word = bufio_ScanWords line;
                 isSection = (case word of None \<Rightarrow> False | Some w \<Rightarrow> hd w = CHR ''%'')
             in if isSection \<and> (inSection \<or> advance \<noteq> 0) then (advance, Bytes retbuf)
                else if a = 0 then
                  (if \<not> atEOF then (0, None) else (advance + a, Bytes (retbuf @ line @ [newline])))
                else scanDefinitionFile_loop data atEOF (advance + a)
                       (inSection \<or> isSection) (retbuf @ line @ [newline]))
      else if \<not> atEOF then (0, None)
      else (advance, Bytes retbuf))"
  by pat_completeness auto
termination
  by (relation "measure (\<lambda>(data, atEOF, advance, inSection, retbuf). length data - advance)")
     auto

declare scanDefinitionFile_loop.simps [simp del]

definition scanDefinitionFile :: "string \<Rightarrow> bool \<Rightarrow> nat \<times> string option" where
  "scanDefinitionFile data atEOF = scanDefinitionFile_loop data atEOF 0 False []"

text \<open>
  The tokens that the \<open>bufio.Scanner\<close> with this split function yields on the input
  \<open>rest\<close>. The scanner hands the split function a growing window of the input until
  it returns a token; since \<open>scanDefinitionFile\<close> only returns a token at a section
  line or at the end of the input, the token is the one it returns on the whole rest
  of the input at EOF. The limit of the scanner on the size of its buffer
  (\<open>bufio.MaxScanTokenSize\<close>, 64 KiB) is not modelled. A token that does not advance
  the input ends the scan here (the scanner panics after a hundred of them).
\<close>

function scanTokens :: "string \<Rightarrow> string list" where
  "scanTokens rest =
     (if rest = [] then []
      else (case scanDefinitionFile rest True of
              (advance, None) \<Rightarrow> []
            | (advance, Some token) \<Rightarrow>
                if advance = 0 then [] else token # scanTokens (drop advance rest)))"
  by pat_completeness auto
termination
  by (relation "measure length") auto

declare scanTokens.simps [simp del]

subsection \<open>Sections\<close>

definition getSectionName :: "string \<Rightarrow> string" where
  "getSectionName line =
     hd (strings_SplitN (strings_ToLower (strings_TrimLeft line (CHR ''%''))) (CHR '' '') 2)"

text \<open>One line of the body of a \<open>%files\<close> section (lines 157--174): \<open>None\<close> for a
  blank or comment line. Reading \<open>lineSubs[0]\<close> of an empty result panics.\<close>

definition parseFilesLine :: "string \<Rightarrow> parser_error + FileTransport option" where
  "parseFilesLine line0 =
     (let line = strings_TrimSpace line0
      in if line = [] \<or> strings_HasPrefix line ''#'' then Inr None
         else
           let lineSubs = regexp_FindAllString fileSplitter line
           in if length lineSubs < 2 then
                (case lineSubs of
                   [] \<Rightarrow> Inl (ParserPanic ''index out of range [0] with length 0'')
                 | x # _ \<Rightarrow>
                     Inr (Some \<lparr> Src = strings_Trim (strings_TrimSpace x) dquote,
                                 Dst = strings_Trim [] dquote \<rparr>))
              else
                Inr (Some \<lparr> Src = strings_Trim (strings_TrimSpace (lineSubs ! 0)) dquote,
                            Dst = strings_Trim (strings_TrimSpace (lineSubs ! 1)) dquote \<rparr>))"

fun parseFilesLines :: "string list \<Rightarrow> FileTransport list \<Rightarrow> parser_error + FileTransport list" where
  "parseFilesLines [] acc = Inr acc"
| "parseFilesLines (line # subs) acc =
     (case parseFilesLine line of
        Inl e \<Rightarrow> Inl e
      | Inr None \<Rightarrow> parseFilesLines subs acc
      | Inr (Some ft) \<Rightarrow> parseFilesLines subs (acc @ [ft]))"

text \<open>Lines 176--187: append to the first block with the same arguments, or add a
  new block.\<close>

fun mergeFiles :: "Files list \<Rightarrow> Files \<Rightarrow> Files list" where
  "mergeFiles [] f = [f]"
| "mergeFiles (ef # files) f =
     (if Files_Args ef = Files_Args f
      then ef\<lparr>Files_Files := Files_Files ef @ Files_Files f\<rparr> # files
      else ef # mergeFiles files f)"

text \<open>The map of sections holds pointers to scripts: \<open>modifySection key f\<close> creates
  the entry with the zero script if there is none, and applies \<open>f\<close> to the script.\<close>

definition modifySection ::
  "string \<Rightarrow> (Script \<Rightarrow> Script) \<Rightarrow> (string \<times> Script) list \<Rightarrow> (string \<times> Script) list" where
  "modifySection key f sections =
     AList.update key
       (f (case map_of sections key of None \<Rightarrow> \<lparr> Args = [], Script = [] \<rparr> | Some s \<Rightarrow> s))
       sections"

type_synonym sections_state = "(string \<times> Script) list \<times> Files list \<times> string list"

definition parseTokenSection :: "string \<Rightarrow> sections_state \<Rightarrow> parser_error + sections_state" where
  "parseTokenSection tok st =
     (case st of (sections, files, appOrder) \<Rightarrow>
      let split = strings_SplitN tok newline 2
      in if length split \<noteq> 2 then
           Inl (Errorf (''section '' @ split ! 0
                        @ '': could not be split into section name and body''))
         else
           let key = getSectionName (split ! 0)
           in if key = ''files'' then
                (let sectionSplit = strings_SplitN (strings_TrimLeft (split ! 0) (CHR ''%''))
                                      (CHR '' '') 2;
                     fargs = (if length sectionSplit = 2 then sectionSplit ! 1 else []);
                     subs = strings_Split (strings_TrimSpace (split ! 1)) newline
                 in case parseFilesLines subs [] of
                      Inl e \<Rightarrow> Inl e
                    | Inr fs \<Rightarrow>
                        Inr (sections,
                             mergeFiles files \<lparr> Files_Args = fargs, Files_Files = fs \<rparr>,
                             appOrder))
              else if key \<in> set appSections then
                (let sectionSplit = strings_SplitN (strings_TrimLeft (split ! 0) (CHR ''%''))
                                      (CHR '' '') 3
                 in if length sectionSplit < 2 then
                      Inl (Errorf (''app section '' @ sectionSplit ! 0
                                   @ '': could not be split into section name and app name''))
                    else
                      let key' = strings_Join (take 2 sectionSplit) '' '';
                          appName = sectionSplit ! 1;
                          appOrder' = (if appName \<in> set appOrder then appOrder
                                       else appOrder @ [appName])
                      in Inr (modifySection key' (\<lambda>s. s\<lparr>Script := Script s @ split ! 1\<rparr>) sections,
                              files, appOrder'))
              else
                (let sectionSplit = strings_SplitN (strings_TrimLeft (split ! 0) (CHR ''%''))
                                      (CHR '' '') 2;
                     sections' = (if length sectionSplit = 2
                                  then modifySection key (\<lambda>s. s\<lparr>Args := sectionSplit ! 1\<rparr>) sections
                                  else modifySection key (\<lambda>s. s) sections)
                 in Inr (modifySection key (\<lambda>s. s\<lparr>Script := Script s @ split ! 1\<rparr>) sections',
                         files, appOrder)))"

text \<open>\<open>GetLabels\<close>: one label per line, the key up to the first blank.\<close>

definition labelLine :: "string \<Rightarrow> gomap \<Rightarrow> gomap" where
  "labelLine line0 labels =
     (let line = strings_TrimSpace line0
      in if line = [] \<or> strings_HasPrefix line ''#'' then labels
         else
           let lineSubs = strings_SplitN line (CHR '' '') 2
           in if length lineSubs < 2
              then AList.update (strings_TrimSpace (lineSubs ! 0)) [] labels
              else AList.update (strings_TrimSpace (lineSubs ! 0))
                     (strings_TrimSpace (lineSubs ! 1)) labels)"

definition GetLabels :: "string \<Rightarrow> gomap" where
  "GetLabels content =
     foldl (\<lambda>labels line. labelLine line labels) []
       (strings_Split (strings_TrimSpace content) newline)"

text \<open>\<open>isEmpty\<close>: deep equality with the empty definition, the raw data apart. The
  labels, the files and the order of the apps of the definition at hand are never
  nil.\<close>

definition isEmpty :: "Definition \<Rightarrow> bool" where
  "isEmpty d = (d\<lparr>Raw := [], FullRaw := []\<rparr> = zeroDefinition)"

text \<open>
  \<open>populateDefinition\<close>. The Go code ranges over the map of the remaining sections,
  in an order that Go leaves open; the model ranges over them in the order in which
  they were first met.
\<close>

definition sectionOf :: "(string \<times> Script) list \<Rightarrow> string \<Rightarrow> Script" where
  "sectionOf sections key =
     (case map_of sections key of None \<Rightarrow> \<lparr> Args = [], Script = [] \<rparr> | Some s \<Rightarrow> s)"

text \<open>Lines 301--305: every standard section gets an entry.\<close>

definition initSections :: "(string \<times> Script) list \<Rightarrow> (string \<times> Script) list" where
  "initSections sections =
     foldl (\<lambda>m section. modifySection section (\<lambda>s. s) m) sections validSections"

text \<open>Lines 307--324: the image data and the build data.\<close>

definition populateData :: "(string \<times> Script) list \<Rightarrow> Files list \<Rightarrow> Definition \<Rightarrow> Definition" where
  "populateData sections files d =
     d\<lparr> Help := sectionOf sections ''help'',
        Environment := sectionOf sections ''environment'',
        Runscript := sectionOf sections ''runscript'',
        Test := sectionOf sections ''test'',
        Startscript := sectionOf sections ''startscript'',
        Labels := GetLabels (Script (sectionOf sections ''labels'')),
        BuildData_Files := files,
        Arguments := sectionOf sections ''arguments'',
        Pre := sectionOf sections ''pre'',
        Setup := sectionOf sections ''setup'',
        Post := sectionOf sections ''post'',
        BuildTest := sectionOf sections ''test'' \<rparr>"

text \<open>Lines 327--329: the standard sections are deleted from the map.\<close>

definition removeStandard :: "(string \<times> Script) list \<Rightarrow> (string \<times> Script) list" where
  "removeStandard sections = filter (\<lambda>(k, s). k \<notin> set validSections) sections"

definition populateDefinition ::
  "(string \<times> Script) list \<Rightarrow> Files list \<Rightarrow> string list \<Rightarrow> Definition
     \<Rightarrow> parser_error + Definition" where
  "populateDefinition sections0 files appOrder d =
     (let sections1 = initSections sections0;
          d1 = populateData sections1 files d;
          sections = removeStandard sections1;
          d2 = (if sections \<noteq> []
                then d1\<lparr>CustomData := Some (map (\<lambda>(k, s). (k, Script s)) sections)\<rparr>
                else d1);
          keys = filter (\<lambda>k. hd (strings_Split k (CHR '' '')) \<notin> set appSections)
                        (map fst sections)
      in if sections \<noteq> [] \<and> keys \<noteq> [] then Inl (InvalidSectionError keys)
         else
           let d3 = d2\<lparr>AppOrder := appOrder\<rparr>
           in if isEmpty d3 then Inl errEmptyDefinition else Inr d3)"

subsection \<open>The header\<close>

text \<open>\<open>rgx.ReplaceAllString(key, "&n")\<close> for the expression \<^verbatim>\<open>\d+$\<close>: the digits at
  the end of the key, if any, are replaced.\<close>

definition replaceTrailingDigits :: "string \<Rightarrow> string" where
  "replaceTrailingDigits key =
     (let ds = takeWhile isDigit (rev key)
      in if ds = [] then key else take (length key - length ds) key @ ''&n'')"

text \<open>Lines 400--409: is the keyword accepted.\<close>

definition headerKeyOk :: "string \<Rightarrow> bool" where
  "headerKeyOk key =
     (if key \<in> set validHeaders then True
      else
        let tmpKey = replaceTrailingDigits key
        in tmpKey \<noteq> key \<and> tmpKey \<in> set validHeaders)"

text \<open>Lines 394--397: the value carried over to the next line, without the backslash
  at its end; a backslash followed by the letter n at its end becomes a newline.\<close>

definition continuedValue :: "string \<Rightarrow> string" where
  "continuedValue val =
     (let v = strings_TrimSuffix val [backslash]
      in if strings_HasSuffix v [backslash, CHR ''n'']
         then strings_TrimSuffix v [backslash, CHR ''n''] @ [newline]
         else v)"

text \<open>The state of the loop of \<open>doHeader\<close>: the map \<open>header\<close>, \<open>keyCont\<close>, \<open>valCont\<close> and
  the definition.\<close>

type_synonym header_state = "gomap \<times> string \<times> string \<times> Definition"

text \<open>The body of the loop (lines 368--410) for one line. Storing into \<open>d.Header\<close>
  while it is nil panics.\<close>

definition doHeaderLine :: "string \<Rightarrow> header_state \<Rightarrow> parser_error + header_state" where
  "doHeaderLine line0 st =
     (case st of (header, keyCont, valCont, d) \<Rightarrow>
      let line = strings_TrimSpace line0
      in if line = [] \<or> strings_HasPrefix line ''#'' then
           (if keyCont \<noteq> [] then
              (case Header d of
                 None \<Rightarrow> Inl (ParserPanic ''assignment to entry in nil map'')
               | Some m \<Rightarrow> Inr (header, [], [], d\<lparr>Header := Some (AList.update keyCont valCont m)\<rparr>))
            else Inr (header, keyCont, valCont, d))
         else
           let trimLine = hd (strings_Split line (CHR ''#''))
           in (case (if valCont = [] then
                      (let linetoks = strings_SplitN trimLine (CHR '':'') 2
                       in if length linetoks = 1
                          then Inl (Errorf (''header key '' @ linetoks ! 0 @ '' had no val''))
                          else Inr (strings_ToLower (strings_TrimSpace (linetoks ! 0)),
                                    strings_TrimSpace (linetoks ! 1), keyCont, valCont))
                    else Inr (keyCont, valCont @ strings_TrimSpace trimLine, [], [])) of
                Inl e \<Rightarrow> Inl e
              | Inr (key, val, keyCont', valCont') \<Rightarrow>
                  if strings_HasSuffix val [backslash]
                  then Inr (header, key, continuedValue val, d)
                  else if \<not> headerKeyOk key
                  then Inl (Errorf (''invalid header keyword found: '' @ key))
                  else Inr (AList.update key val header, keyCont', valCont', d)))"

fun doHeaderLines :: "string list \<Rightarrow> header_state \<Rightarrow> parser_error + header_state" where
  "doHeaderLines [] st = Inr st"
| "doHeaderLines (line # toks) st =
     (case doHeaderLine line st of
        Inl e \<Rightarrow> Inl e
      | Inr st' \<Rightarrow> doHeaderLines toks st')"

definition doHeader :: "string \<Rightarrow> Definition \<Rightarrow> parser_error + Definition" where
  "doHeader h0 d0 =
     (let h = strings_TrimSpace h0;
          toks = strings_Split h newline
      in case doHeaderLines toks ([], [], [], d0) of
           Inl e \<Rightarrow> Inl e
         | Inr (header, keyCont, valCont, d) \<Rightarrow>
             Inr (if header \<noteq> [] then d\<lparr>Header := Some header\<rparr> else d))"

subsection \<open>\<open>doSections\<close>, \<open>ParseDefinitionFile\<close> and \<open>All\<close>\<close>

fun parseTokenSections :: "string list \<Rightarrow> sections_state \<Rightarrow> parser_error + sections_state" where
  "parseTokenSections [] st = Inr st"
| "parseTokenSections (tok # toks) st =
     (case parseTokenSection tok st of
        Inl e \<Rightarrow> Inl e
      | Inr st' \<Rightarrow> parseTokenSections toks st')"

text \<open>\<open>doSections\<close>: \<open>text\<close> is the token the scanner holds, \<open>toks\<close> the tokens it
  yields afterwards.\<close>

definition doSections :: "string \<Rightarrow> string list \<Rightarrow> Definition \<Rightarrow> parser_error + Definition" where
  "doSections text toks d =
     (let tok = strings_TrimSpace text
      in case (if tok \<noteq> [] then
                 (if hd tok \<noteq> CHR ''%'' then
                    (case doHeader tok d of
                       Inl (Errorf e) \<Rightarrow> Inl (Errorf (''failed to parse deffile header: '' @ e))
                     | Inl e \<Rightarrow> Inl e
                     | Inr d' \<Rightarrow> Inr (d', ([], [], [])))
                  else
                    (case parseTokenSection tok ([], [], []) of
                       Inl e \<Rightarrow> Inl e
                     | Inr st \<Rightarrow> Inr (d, st)))
               else Inr (d, ([], [], []))) of
           Inl e \<Rightarrow> Inl e
         | Inr (d', st) \<Rightarrow>
             (case parseTokenSections toks st of
                Inl e \<Rightarrow> Inl e
              | Inr (sections, files, appOrder) \<Rightarrow>
                  populateDefinition sections files appOrder d'))"

definition ParseDefinitionFile :: "string \<Rightarrow> parser_error + Definition" where
  "ParseDefinitionFile raw =
     (let d = zeroDefinition\<lparr>FullRaw := raw, Raw := raw\<rparr>
      in case dropWhile (\<lambda>t. t = []) (scanTokens raw) of
           [] \<Rightarrow> Inl errEmptyDefinition
         | text # toks \<Rightarrow> doSections text toks d)"







text \<open>A remaining section is an app section when the first word of its key is one of
  the app section names (lines 340--341); the offending keys of a map of sections
  are those that are neither known nor app sections.\<close>

definition isAppKey :: "string \<Rightarrow> bool" where
  "isAppKey k = (hd (strings_Split k (CHR '' '')) \<in> set appSections)"

definition offendingKeys :: "(string \<times> Script) list \<Rightarrow> string set" where
  "offendingKeys sections =
     {k \<in> fst ` set sections. k \<notin> set validSections \<and> \<not> isAppKey k}"





section \<open>The metadata writer (\<open>internal/pkg/build/metadata.go\<close>)\<close>

text \<open>
  What \<open>insertLabelsJSON\<close> finds around the bundle; \<open>Inl\<close> is an error message.
  \<open>existingLabels\<close> is the outcome of \<open>getExistingLabels\<close>: the content of
  \<open>labels.json\<close> in the rootfs, \<open>None\<close> when there is no such file.
  \<open>buildLabelsFile\<close> is the outcome of reading the file of labels left by the build
  scripts (\<open>None\<close> when it does not exist), \<open>removeBuildLabels\<close> that of removing it.
  \<open>timeString\<close> is the formatted build date, \<open>archOf\<close> the table \<open>oci.ArchMap\<close>;
  \<open>sLabelsPath\<close> and \<open>PACKAGE_VERSION\<close> are constants declared outside the sources at
  hand. \<open>writeLabels\<close> is the outcome of writing \<open>labels.json\<close>.
\<close>

record LabelsEnv =
  existingLabels :: "string + gomap option"
  sLabelsPath :: string
  buildLabelsFile :: "string + string option"
  removeBuildLabels :: "string option"
  timeString :: string
  PACKAGE_VERSION :: string
  archOf :: "string \<Rightarrow> string"
  writeLabels :: "string option"

text \<open>\<open>for k, v := range m { labels[k] = v }\<close>.\<close>

definition putAll :: "gomap \<Rightarrow> gomap \<Rightarrow> gomap" where
  "putAll m labels = foldl (\<lambda>l kv. AList.update (fst kv) (snd kv) l) labels m"

definition addBuildLabels :: "LabelsEnv \<Rightarrow> Bundle \<Rightarrow> gomap \<Rightarrow> gomap" where
  "addBuildLabels env b labels0 =
     (let labels1 = AList.update ''org.label-schema.schema-version'' ''1.0'' labels0;
          labels2 = AList.update ''org.label-schema.build-date'' (timeString env) labels1;
          labels3 = AList.update ''org.label-schema.usage.apptainer.version''
                      (PACKAGE_VERSION env) labels2;
          labels4 = (if RunSection b ''help'' \<and> Script (Help (Recipe b)) \<noteq> []
                     then AList.update ''org.label-schema.usage.apptainer.runscript.help''
                            ''/.singularity.d/runscript.help''
                           (AList.update ''org.label-schema.usage''
                              ''/.singularity.d/runscript.help'' labels3)
                     else labels3);
          labels5 = (if \<not> Update (Opts b) \<or> Force (Opts b)
                     then putAll (map (\<lambda>(key, value).
                                     (''org.label-schema.usage.singularity.deffile.'' @ key, value))
                                   (case Header (Recipe b) of None \<Rightarrow> [] | Some m \<Rightarrow> m))
                            labels4
                     else labels4);
          labels6 = (if Tag (Opts b) \<noteq> [] \<and> Digest (Opts b) \<noteq> []
                     then AList.update ''org.opencontainers.image.base.digest'' (Digest (Opts b))
                           (AList.update ''org.opencontainers.image.base.name'' (Tag (Opts b))
                              labels5)
                     else labels5)
      in AList.update ''org.label-schema.build-arch'' (archOf env (Arch (Opts b))) labels6)"

text \<open>Lines 213--235 of \<open>insertLabelsJSON\<close>: the labels of the existing
  \<open>labels.json\<close>, overlaid with those of the build labels file and with the labels
  of the build.\<close>

definition collectLabels :: "LabelsEnv \<Rightarrow> Bundle \<Rightarrow> go_error + gomap" where
  "collectLabels env b =
     (case existingLabels env of
        Inl e \<Rightarrow> Inl (Err e)
      | Inr existing \<Rightarrow>
     (let labels0 = (case existing of None \<Rightarrow> [] | Some m \<Rightarrow> m)
      in case buildLabelsFile env of
           Inr (Some content) \<Rightarrow>
             (case removeBuildLabels env of
                Some e \<Rightarrow> Inl (Err e)
              | None \<Rightarrow> Inr (addBuildLabels env b (putAll (GetLabels content) labels0)))
         | Inr None \<Rightarrow> Inr (addBuildLabels env b labels0)
         | Inl e \<Rightarrow> Inl (Err (''while reading '' @ path_Clean (RootfsPath b @ ''/'' @ sLabelsPath env)
                                @ '': '' @ e))))"

text \<open>Lines 237--255: the labels of the recipe; a label that exists already is
  overwritten only with the force option.\<close>

definition mergeLabel :: "bool \<Rightarrow> string \<times> string \<Rightarrow> gomap \<Rightarrow> gomap" where
  "mergeLabel force kv labels =
     (if map_of labels (fst kv) \<noteq> None
      then (if force then AList.update (fst kv) (snd kv) labels else labels)
      else AList.update (fst kv) (snd kv) labels)"

definition mergeRecipeLabels :: "Bundle \<Rightarrow> gomap \<Rightarrow> gomap" where
  "mergeRecipeLabels b labels =
     (if RunSection b ''labels'' \<and> Labels (Recipe b) \<noteq> []
      then foldl (\<lambda>l kv. mergeLabel (Force (Opts b)) kv l) labels (Labels (Recipe b))
      else labels)"

text \<open>\<open>insertLabelsJSON\<close>: the labels written to \<open>labels.json\<close>.\<close>

definition insertLabelsJSON :: "LabelsEnv \<Rightarrow> Bundle \<Rightarrow> go_error + gomap" where
  "insertLabelsJSON env b =
     (case collectLabels env b of
        Inl e \<Rightarrow> Inl e
      | Inr labels \<Rightarrow>
          (case writeLabels env of
             Some e \<Rightarrow> Inl (Err e)
           | None \<Rightarrow> Inr (mergeRecipeLabels b labels)))"

text \<open>A bundle and its surroundings used to instantiate the properties: no
  \<open>labels.json\<close> yet, no build labels file.\<close>

definition sampleBundle :: Bundle where
  "sampleBundle =
     \<lparr> RootfsPath = ''/tmp/build-temp-1/rootfs'', Bundle_TmpDir = ''/tmp/bundle-temp-1'',
       Recipe = zeroDefinition\<lparr>Header := Some [(''bootstrap'', ''docker'')],
                  Labels := [(''maintainer'', ''me''), (''org.label-schema.build-arch'', ''mine'')]\<rparr>,
       Opts = sampleOptions \<rparr>"

definition sampleLabelsEnv :: LabelsEnv where
  "sampleLabelsEnv =
     \<lparr> existingLabels = Inr None, sLabelsPath = ''/.build.labels'',
       buildLabelsFile = Inr None, removeBuildLabels = None,
       timeString = ''Friday_30_October_2026_12:0:0_UTC'', PACKAGE_VERSION = ''1.4.0'',
       archOf = (\<lambda>a. a), writeLabels = None \<rparr>"

text \<open>The three sources of the labels collected before the labels of the recipe are
  merged, as maps: the labels of the existing \<open>labels.json\<close> (none when the file does
  not exist), the labels of the build labels file (none when it does not exist), and
  the labels that \<open>addBuildLabels\<close> puts into an empty map.\<close>

definition labelsJSON :: "LabelsEnv \<Rightarrow> string \<rightharpoonup> string" where
  "labelsJSON env =
     (case existingLabels env of
        Inr (Some m) \<Rightarrow> map_of m
      | _ \<Rightarrow> Map.empty)"

definition buildLabels :: "LabelsEnv \<Rightarrow> string \<rightharpoonup> string" where
  "buildLabels env =
     (case buildLabelsFile env of
        Inr (Some content) \<Rightarrow> map_of (GetLabels content)
      | _ \<Rightarrow> Map.empty)"

definition autoLabels :: "LabelsEnv \<Rightarrow> Bundle \<Rightarrow> string \<rightharpoonup> string" where
  "autoLabels env b = map_of (addBuildLabels env b [])"

text \<open>Surroundings with a \<open>labels.json\<close> and a build labels file.\<close>

definition sampleLabelsEnvExisting :: LabelsEnv where
  "sampleLabelsEnvExisting =
     sampleLabelsEnv
       \<lparr> existingLabels := Inr (Some [(''maintainer'', ''old''), (''vendor'', ''acme''),
                                      (''org.label-schema.schema-version'', ''0.9'')]),
         buildLabelsFile := Inr (Some (''vendor initech'' @ [newline] @ ''flavour salt'')) \<rparr>"

section \<open>Properties\<close>

subsection \<open>The conveyor retry loop\<close>

lemma word5_cases: "k < 4 \<Longrightarrow> (of_nat k :: 64 word) + 1 \<noteq> 5"
proof -
  assume "k < 4"
  then consider "k = 0" | "k = 1" | "k = 2" | "k = 3" by linarith
  then show ?thesis by cases simp_all
qed

lemma conveyorGetLoop_retry:
  assumes "retryable (get k)" and "k < 4"
  shows "conveyorGetLoop get k (of_nat k) = conveyorGetLoop get (Suc k) (of_nat (Suc k))"
proof -
  from assms(1) obtain err where e: "get k = Some err" "strings_Contains err retryMarker"
    by (auto simp: retryable_def split: option.splits)
  show ?thesis
    using e word5_cases [OF assms(2)]
    by (subst conveyorGetLoop.simps) (simp add: add.commute)
qed

lemma conveyorGetLoop_prefix:
  "n \<le> 4 \<Longrightarrow> \<forall>k<n. retryable (get k) \<Longrightarrow>
     conveyorGetLoop get 0 0 = conveyorGetLoop get n (of_nat n)"
proof (induction n)
  case 0
  then show ?case by simp
next
  case (Suc n)
  then have "conveyorGetLoop get 0 0 = conveyorGetLoop get n (of_nat n)" by simp
  also have "\<dots> = conveyorGetLoop get (Suc n) (of_nat (Suc n))"
    using Suc.prems by (intro conveyorGetLoop_retry) auto
  finally show ?case .
qed

lemma conveyorGetLoop_success:
  "n < 5 \<Longrightarrow> \<forall>k<n. retryable (get k) \<Longrightarrow> get n = None \<Longrightarrow>
     conveyorGetLoop get 0 0 = (None, Suc n)"
  by (subst conveyorGetLoop_prefix [of n]) (auto simp: conveyorGetLoop.simps)

lemma conveyorGetLoop_fatal:
  "n < 5 \<Longrightarrow> \<forall>k<n. retryable (get k) \<Longrightarrow> get n = Some err \<Longrightarrow>
     \<not> strings_Contains err retryMarker \<Longrightarrow>
     conveyorGetLoop get 0 0 = (Some (Err (''conveyor failed to get: '' @ err)), Suc n)"
  by (subst conveyorGetLoop_prefix [of n]) (auto simp: conveyorGetLoop.simps)

lemma conveyorGetLoop_fifth:
  "\<forall>k<4. retryable (get k) \<Longrightarrow> get 4 = Some err \<Longrightarrow>
     conveyorGetLoop get 0 0 = (Some (Err (''conveyor failed to get: '' @ err)), 5)"
  by (subst conveyorGetLoop_prefix [of 4]) (auto simp: conveyorGetLoop.simps)

lemma Full_first_stage_error:
  "stages bld = st # rest \<Longrightarrow> runStage bld (env 0) 0 st = (Some e, d) \<Longrightarrow>
     fst (Full bld env asm w) = Some e"
  by (simp add: Full_def)

lemma runStage_conveyor_error:
  assumes "pre_result r = None"
    and "\<not> Update (Opts (stage_b st)) \<or> Force (Opts (stage_b st))"
    and "ImgCache (Conf_Opts (Conf bld))" and "stage_c st"
    and "fst (conveyorGetLoop (get_result r) 0 0) = Some e"
  shows "runStage bld r i st = (Some e, [])"
  using assms by (auto simp: runStage_def bootstrapStage_def)

text \<open>
  Claim C3. In a build whose first stage is not an update (or is forced), has an image
  cache and a conveyor, and whose \<open>pre\<close> script succeeds, let \<open>get k\<close> be the outcome
  of the \<open>k\<close>-th call of the conveyor's \<open>Get\<close>. As long as the outcomes are errors
  containing the marker, \<open>Get\<close> is called again: if call \<open>n < 5\<close> is the first that is
  not such an error and it succeeds, the loop ends without error after \<open>n + 1\<close>
  calls; if it is an error without the marker, or if it is the fifth call (\<open>n = 4\<close>)
  and an error of any kind, the loop ends after \<open>n + 1\<close> calls and \<open>Full\<close> returns the
  error \<open>conveyor failed to get: \<dots>\<close>.
\<close>

theorem conveyor_retry_five_attempts:
  assumes "stages bld = st # rest"
    and "pre_result (env 0) = None"
    and "\<not> Update (Opts (stage_b st)) \<or> Force (Opts (stage_b st))"
    and "ImgCache (Conf_Opts (Conf bld))"
    and "stage_c st"
    and "get = get_result (env 0)"
    and "n < 5"
    and "\<forall>k<n. retryable (get k)"
  shows "(get n = None \<longrightarrow> conveyorGetLoop get 0 0 = (None, Suc n))
       \<and> (\<forall>err. get n = Some err \<and> (\<not> strings_Contains err retryMarker \<or> n = 4) \<longrightarrow>
            conveyorGetLoop get 0 0 = (Some (Err (''conveyor failed to get: '' @ err)), Suc n)
            \<and> fst (Full bld env asm w) = Some (Err (''conveyor failed to get: '' @ err)))"
proof (intro conjI impI allI)
  assume "get n = None"
  then show "conveyorGetLoop get 0 0 = (None, Suc n)"
    using assms(7,8) by (rule conveyorGetLoop_success [rotated 2])
next
  fix err
  assume h: "get n = Some err \<and> (\<not> strings_Contains err retryMarker \<or> n = 4)"
  show loop: "conveyorGetLoop get 0 0 = (Some (Err (''conveyor failed to get: '' @ err)), Suc n)"
  proof (cases "n = 4")
    case True
    then show ?thesis
      using h assms(8) conveyorGetLoop_fifth [of get err] by simp
  next
    case False
    then show ?thesis
      using h assms(7,8) conveyorGetLoop_fatal [of n get err] by simp
  qed
  have "runStage bld (env 0) 0 st = (Some (Err (''conveyor failed to get: '' @ err)), [])"
    using assms(2-5) loop unfolding assms(6)
    by (intro runStage_conveyor_error) simp_all
  then show "fst (Full bld env asm w) = Some (Err (''conveyor failed to get: '' @ err))"
    using assms(1) by (rule Full_first_stage_error [rotated])
qed

theorem conveyor_retry_five_attempts_witness:
  "conveyorGetLoop (\<lambda>k. Some ''no descriptor found for reference: x'') 0 0
     = (Some (Err ''conveyor failed to get: no descriptor found for reference: x''), 5)
   \<and> fst (Full sampleBuild
            (\<lambda>i. sampleRun\<lparr>get_result := (\<lambda>k. Some ''no descriptor found for reference: x'')\<rparr>)
            None \<lparr>umask = 18, removed = []\<rparr>)
     = Some (Err ''conveyor failed to get: no descriptor found for reference: x'')"
proof -
  let ?get = "\<lambda>k::nat. Some ''no descriptor found for reference: x''"
  let ?env = "\<lambda>i::nat. sampleRun\<lparr>get_result := ?get\<rparr>"
  have r: "\<forall>k<4. retryable (?get k)"
    by (simp add: retryable_def retryMarker_def)
  have "stages sampleBuild = sampleStage # []"
    and "pre_result (?env 0) = None"
    and "\<not> Update (Opts (stage_b sampleStage)) \<or> Force (Opts (stage_b sampleStage))"
    and "ImgCache (Conf_Opts (Conf sampleBuild))"
    and "stage_c sampleStage"
    and "?get = get_result (?env 0)"
    and "(4::nat) < 5"
    by (simp_all add: sampleBuild_def sampleStage_def sampleRun_def sampleOptions_def)
  from conveyor_retry_five_attempts [OF this r, of None "\<lparr>umask = 18, removed = []\<rparr>"]
  show ?thesis by simp
qed

subsection \<open>The umask\<close>

lemma umask_cleanUp: "umask (cleanUp bld w) = umask w"
  by (simp add: cleanUp_def)

lemma newBuild_restores_umask: "umask (snd (newBuild env defs conf w)) = umask w"
  by (simp add: newBuild_def Let_def)

lemma Full_success_restores_umask:
  "fst (runStages bld env 0 (stages bld) []) = None \<Longrightarrow>
     umask (snd (Full bld env asm w)) = umask w"
  by (cases "runStages bld env 0 (stages bld) []")
     (simp add: Full_def Let_def umask_cleanUp)

lemma Full_failure_keeps_umask:
  "fst (runStages bld env 0 (stages bld) []) = Some e \<Longrightarrow>
     fst (Full bld env asm w) = Some e \<and> umask (snd (Full bld env asm w)) = 2"
  by (cases "runStages bld env 0 (stages bld) []")
     (simp add: Full_def Let_def umask_cleanUp)

text \<open>
  Claim C9. The claim asks that the previous umask is restored on every exit of
  \<open>newBuild\<close> and of \<open>Full\<close>. \<open>newBuild\<close> does so (\<open>newBuild_restores_umask\<close>), and
  so does \<open>Full\<close> when every stage succeeds (\<open>Full_success_restores_umask\<close>). When
  a stage fails, \<open>Full\<close> returns from inside the loop and the umask stays \<open>0o002\<close>:
  here the \<open>pre\<close> script of the only stage fails in a process whose umask was
  \<open>0o022\<close> (18), and \<open>Full\<close> returns the error with the umask left at 2.
\<close>

theorem Full_failure_umask_not_restored:
  "Full sampleBuild (\<lambda>i. sampleRun\<lparr>pre_result := Some ''exit status 1''\<rparr>) None
        \<lparr>umask = 18, removed = []\<rparr>
     = (Some (Err ''exit status 1''),
        \<lparr>umask = 2, removed = [''/tmp/build-temp-1/rootfs'', ''/tmp/bundle-temp-1'']\<rparr>)"
  by (simp add: Full_def runStage_def sampleBuild_def sampleStage_def sampleRun_def
        cleanUp_def)

subsection \<open>Stage headers in \<open>newBuild\<close>\<close>

lemma newStage_no_header:
  "Header d = None \<Longrightarrow>
     newStage env conf entries lastStageIndex sandboxCopy i d
       = Inl (Err ''multiple stages detected, all must have headers'')"
  by (simp add: newStage_def)

lemma newStage_Inr:
  assumes "newStage env conf entries lastStageIndex sandboxCopy i d = Inr (s, sc)"
  shows "Header d \<noteq> None \<and> stage_name s = mapIndex (Header d) ''stage''"
proof -
  have h: "Header d \<noteq> None"
    using assms newStage_no_header [of d env conf entries lastStageIndex sandboxCopy i]
    by (cases "Header d = None") simp_all
  have "stage_name s = mapIndex (Header d) ''stage''"
    using assms h unfolding newStage_def Let_def
    by (auto split: sum.splits option.splits if_splits prod.splits)
  with h show ?thesis by simp
qed

lemma newStages_Inr:
  "newStages env conf entries lastStageIndex sandboxCopy i acc defs = Inr (sts, sc) \<Longrightarrow>
     (\<forall>d\<in>set defs. Header d \<noteq> None)
     \<and> map stage_name sts = map stage_name acc @ map (\<lambda>d. mapIndex (Header d) ''stage'') defs"
proof (induction defs arbitrary: sandboxCopy i acc)
  case Nil
  then show ?case by simp
next
  case (Cons d ds)
  from Cons.prems obtain s sc' where
    s: "newStage env conf entries lastStageIndex sandboxCopy i d = Inr (s, sc')"
    and rest: "newStages env conf entries lastStageIndex sc' (Suc i) (acc @ [s]) ds = Inr (sts, sc)"
    by (auto split: sum.splits)
  from newStage_Inr [OF s] Cons.IH [OF rest] show ?case by simp
qed

lemma setAssembler_names:
  "setAssembler env conf sandboxCopy sts = Inr sts' \<Longrightarrow>
     map stage_name sts' = map stage_name sts"
proof -
  assume a: "setAssembler env conf sandboxCopy sts = Inr sts'"
  have upd: "map stage_name (butlast sts @ [(last sts)\<lparr>stage_a := x\<rparr>]) = map stage_name sts"
    if "sts \<noteq> []" for x
  proof -
    have "map stage_name (butlast sts @ [(last sts)\<lparr>stage_a := x\<rparr>])
            = map stage_name (butlast sts @ [last sts])"
      by simp
    with that show ?thesis by simp
  qed
  from a show ?thesis
    unfolding setAssembler_def
    by (auto split: if_splits sum.splits simp: upd simp del: map_append)
qed

text \<open>
  Claim C4, as amended. \<open>newBuild\<close> requires a header of every definition, whatever
  their number: a definition whose header is nil makes the loop return the error
  \<open>multiple stages detected, all must have headers\<close>. A header without a \<open>stage\<close>
  entry is accepted. When \<open>newBuild\<close> succeeds, every definition has a header, and
  the name of each stage is the \<open>stage\<close> value of its header, the empty string when
  there is none.
\<close>

theorem newBuild_requires_headers:
  "(Header d = None \<longrightarrow>
      newStage env conf entries lastStageIndex sandboxCopy i d
        = Inl (Err ''multiple stages detected, all must have headers''))
   \<and> (newBuild_body env defs conf0 = Inr bld \<longrightarrow>
        (\<forall>d\<in>set defs. Header d \<noteq> None)
        \<and> map stage_name (stages bld) = map (\<lambda>d. mapIndex (Header d) ''stage'') defs)"
proof (intro conjI impI)
  assume "Header d = None"
  then show "newStage env conf entries lastStageIndex sandboxCopy i d
      = Inl (Err ''multiple stages detected, all must have headers'')"
    by (rule newStage_no_header)
next
  assume ok: "newBuild_body env defs conf0 = Inr bld"
  then obtain conf entries sts sc where
    n: "newStages env conf entries (int (length defs) - 1) False 0 [] defs = Inr (sts, sc)"
    and a: "setAssembler env conf sc sts = Inr (stages bld)"
    unfolding newBuild_body_def Let_def
    by (auto split: sum.splits)
  from newStages_Inr [OF n] setAssembler_names [OF a]
  show "\<forall>d\<in>set defs. Header d \<noteq> None" 
    and "map stage_name (stages bld) = map (\<lambda>d. mapIndex (Header d) ''stage'') defs"
    by simp_all
qed

theorem newBuild_requires_headers_witness:
  "newStage sampleEnv sampleConfig [] 0 False 0 zeroDefinition
     = Inl (Err ''multiple stages detected, all must have headers'')
   \<and> map_sum id (\<lambda>bld. map stage_name (stages bld))
        (newBuild_body sampleEnv
           [zeroDefinition\<lparr>Header := Some [(''bootstrap'', ''docker''), (''stage'', ''build'')]\<rparr>]
           sampleConfig)
     = Inr [''build'']"
proof -
  let ?d = "zeroDefinition\<lparr>Header := Some [(''bootstrap'', ''docker''), (''stage'', ''build'')]\<rparr>"
  have "\<exists>bld. newBuild_body sampleEnv [?d] sampleConfig = Inr bld"
    by (simp add: newBuild_body_def newStage_def setAssembler_def tmpdirNoexec_def
          sampleEnv_def sampleConfig_def sampleOptions_def)
  then obtain bld where b: "newBuild_body sampleEnv [?d] sampleConfig = Inr bld" ..
  have z: "Header zeroDefinition = None"
    by (simp add: zeroDefinition_def)
  from newBuild_requires_headers
    [where d = zeroDefinition and env = sampleEnv and conf = sampleConfig and entries = "[]"
       and lastStageIndex = 0 and sandboxCopy = False and i = 0 and defs = "[?d]"
       and ?conf0.0 = sampleConfig and bld = bld]
    b z
  show ?thesis by (simp add: mapIndex_def)
qed

text \<open>
  Claim C4, as stated, fails: two definitions that both have a header, neither with a
  \<open>stage\<close> entry, are accepted, and both stages get the empty name.
\<close>

theorem newBuild_stage_entry_not_required:
  "map_sum id (\<lambda>bld. map stage_name (stages bld))
     (newBuild_body sampleEnv
        [zeroDefinition\<lparr>Header := Some [(''bootstrap'', ''docker''), (''from'', ''golang'')]\<rparr>,
         zeroDefinition\<lparr>Header := Some [(''bootstrap'', ''docker''), (''from'', ''alpine'')]\<rparr>]
        sampleConfig)
     = Inr [[], []]"
  by (simp add: newBuild_body_def newStage_def setAssembler_def tmpdirNoexec_def
        sampleEnv_def sampleConfig_def sampleOptions_def mapIndex_def)

subsection \<open>The command of the squashfuse driver\<close>

lemma digitChar_props:
  "d < 10 \<Longrightarrow> isDigit (digitChar d) \<and> of_char (digitChar d) - 48 = d
     \<and> digitChar d \<noteq> CHR ''/'' \<and> digitChar d \<noteq> CHR ''+'' \<and> digitChar d \<noteq> CHR ''-''"
proof -
  assume "d < 10"
  then have "d = 0 \<or> d = 1 \<or> d = 2 \<or> d = 3 \<or> d = 4 \<or> d = 5 \<or> d = 6
      \<or> d = 7 \<or> d = 8 \<or> d = 9"
    by arith
  then show ?thesis
    by (elim disjE) (simp_all add: digitChar_def isDigit_def)
qed

lemma FormatUint_digits:
  "list_all isDigit (strconv_FormatUint n) \<and> strconv_FormatUint n \<noteq> []
     \<and> digitsValue (strconv_FormatUint n) = n"
proof (induction n rule: strconv_FormatUint.induct)
  case (1 n)
  show ?case
  proof (cases "n < 10")
    case True
    then show ?thesis
      using digitChar_props [of n] by (simp add: digitsValue_def strconv_FormatUint.simps)
  next
    case False
    with 1 have ih: "list_all isDigit (strconv_FormatUint (n div 10))"
      "digitsValue (strconv_FormatUint (n div 10)) = n div 10"
      by simp_all
    have m: "n mod 10 < 10" by simp
    have eq: "strconv_FormatUint n = strconv_FormatUint (n div 10) @ [digitChar (n mod 10)]"
      using False by (subst strconv_FormatUint.simps) simp
    have "digitsValue (strconv_FormatUint n)
            = digitsValue (strconv_FormatUint (n div 10)) * 10 + n mod 10"
      unfolding eq using digitChar_props [OF m] by (simp add: digitsValue_def)
    then show ?thesis
      unfolding eq using ih digitChar_props [OF m] by simp
  qed
qed

lemma isDigit_not_special:
  "isDigit c \<Longrightarrow> c \<noteq> CHR ''/'' \<and> c \<noteq> CHR ''+'' \<and> c \<noteq> CHR ''-''"
  by (auto simp: isDigit_def)

lemma Atoi_FormatUint:
  assumes "n < 2 ^ 63"
  shows "strconv_Atoi (strconv_FormatUint n) = int n"
proof -
  let ?s = "strconv_FormatUint n"
  from FormatUint_digits [of n] have d: "list_all isDigit ?s" "?s \<noteq> []" "digitsValue ?s = n"
    by simp_all
  then have "isDigit (hd ?s)"
    by (cases ?s) simp_all
  then have "hd ?s \<noteq> CHR ''+''" "hd ?s \<noteq> CHR ''-''"
    using isDigit_not_special by blast+
  moreover have "min n (2 ^ 63 - 1) = n"
    using assms by simp
  ultimately show ?thesis
    using d by (simp add: strconv_Atoi_def)
qed

lemma digits_no_slash: "list_all isDigit ds \<Longrightarrow> CHR ''/'' \<notin> set ds"
  using isDigit_not_special by (auto simp: list_all_iff)

lemma afterLastSlash_append:
  "CHR ''/'' \<notin> set ds \<Longrightarrow> afterLastSlash (p @ CHR ''/'' # ds) = ds"
proof -
  assume a: "CHR ''/'' \<notin> set ds"
  have "takeWhile (\<lambda>c. c \<noteq> CHR ''/'') (rev ds @ CHR ''/'' # rev p) = rev ds"
    using a by (subst takeWhile_append2) auto
  then show ?thesis
    by (simp add: afterLastSlash_def)
qed

lemma path_Dir_fd:
  assumes "CHR ''/'' \<notin> set ds"
  shows "path_Dir (''/proc/self/fd/'' @ ds) = ''/proc/self/fd''"
proof -
  have "afterLastSlash (''/proc/self/fd/'' @ ds) = ds"
    using afterLastSlash_append [OF assms, of "''/proc/self/fd''"] by simp
  then have "path_Dir (''/proc/self/fd/'' @ ds) = path_Clean ''/proc/self/fd/''"
    by (simp add: path_Dir_def)
  also have "\<dots> = ''/proc/self/fd''"
    by (simp add: path_Clean_def)
  finally show ?thesis .
qed

lemma trim_trailing_none:
  "xs \<noteq> [] \<Longrightarrow> last xs \<noteq> c \<Longrightarrow> rev (dropWhile (\<lambda>x. x = c) (rev xs)) = xs"
  by (cases xs rule: rev_cases) auto

lemma path_Base_fd:
  assumes "CHR ''/'' \<notin> set ds" and "ds \<noteq> []"
  shows "path_Base (''/proc/self/fd/'' @ ds) = ds"
proof -
  let ?p = "''/proc/self/fd/'' @ ds"
  have "last ds \<noteq> CHR ''/''"
    using assms by (metis last_in_set)
  then have "last ?p \<noteq> CHR ''/''"
    using assms(2) by simp
  then have "rev (dropWhile (\<lambda>x. x = CHR ''/'') (rev ?p)) = ?p"
    by (intro trim_trailing_none) simp_all
  moreover have "afterLastSlash ?p = ds"
    using afterLastSlash_append [OF assms(1), of "''/proc/self/fd''"] by simp
  ultimately show ?thesis
    using assms(2) unfolding path_Base_def Let_def by simp
qed

text \<open>
  Claim C8. For a source whose directory (\<open>path.Dir\<close>) is \<open>/proc/self/fd\<close>, the command
  that \<open>Mount\<close> hands to \<open>Start\<close> has the arguments \<open>-f -o offset=N /proc/self/fd/3
  target\<close> after the name of the helper, and exactly one extra file, which becomes
  descriptor 3 of the child: the descriptor that the last element of the source names
  (for \<open>/proc/self/fd/k\<close> with \<open>k\<close> in decimal, descriptor \<open>k\<close>). For any other source
  the source argument is the path itself and there is no extra file. The example of
  the claim is the case \<open>k = 7\<close>, \<open>N = 1024\<close>.
\<close>

theorem squashfuse_mount_command:
  "fst (Mount cmdpath params start obs) = mountCmd cmdpath params
   \<and> (path_Dir (Source params) = ''/proc/self/fd'' \<longrightarrow>
        Cmd_Args (mountCmd cmdpath params)
          = [cmdpath, ''-f'', ''-o'', ''offset='' @ strconv_FormatUint (unat (Offset params)),
             ''/proc/self/fd/3'', Target params]
        \<and> ExtraFiles (mountCmd cmdpath params)
          = [of_int (strconv_Atoi (path_Base (Source params)))])
   \<and> (k < 2 ^ 63 \<and> Source params = ''/proc/self/fd/'' @ strconv_FormatUint k \<longrightarrow>
        path_Dir (Source params) = ''/proc/self/fd''
        \<and> ExtraFiles (mountCmd cmdpath params) = [of_nat k])
   \<and> (path_Dir (Source params) \<noteq> ''/proc/self/fd'' \<longrightarrow>
        Cmd_Args (mountCmd cmdpath params)
          = [cmdpath, ''-f'', ''-o'', ''offset='' @ strconv_FormatUint (unat (Offset params)),
             Source params, Target params]
        \<and> ExtraFiles (mountCmd cmdpath params) = [])"
proof (intro conjI impI)
  show "fst (Mount cmdpath params start obs) = mountCmd cmdpath params"
    by (simp add: Mount_def Let_def split: sum.splits prod.splits)
next
  assume k: "k < 2 ^ 63 \<and> Source params = ''/proc/self/fd/'' @ strconv_FormatUint k"
  have ns: "CHR ''/'' \<notin> set (strconv_FormatUint k)" and ne: "strconv_FormatUint k \<noteq> []"
    using FormatUint_digits [of k] digits_no_slash by blast+
  show dir: "path_Dir (Source params) = ''/proc/self/fd''"
    using k path_Dir_fd [OF ns] by simp
  have "path_Base (Source params) = strconv_FormatUint k"
    using k path_Base_fd [OF ns ne] by simp
  then have "strconv_Atoi (path_Base (Source params)) = int k"
    using k Atoi_FormatUint by simp
  then show "ExtraFiles (mountCmd cmdpath params) = [of_nat k]"
    using dir by (simp add: mountCmd_def exec_Command_def Let_def)
qed (simp_all add: mountCmd_def exec_Command_def Let_def)

theorem squashfuse_mount_command_witness:
  "Cmd_Args (fst (Mount ''/usr/libexec/apptainer/bin/squashfuse''
        \<lparr>Source = ''/proc/self/fd/7'', Target = ''/mnt/x'', Offset = 1024\<rparr>
        (Inr True) (\<lambda>k. MountInfo [])))
     = [''/usr/libexec/apptainer/bin/squashfuse'', ''-f'', ''-o'', ''offset=1024'',
        ''/proc/self/fd/3'', ''/mnt/x'']
   \<and> ExtraFiles (fst (Mount ''/usr/libexec/apptainer/bin/squashfuse''
        \<lparr>Source = ''/proc/self/fd/7'', Target = ''/mnt/x'', Offset = 1024\<rparr>
        (Inr True) (\<lambda>k. MountInfo [])))
     = [7]
   \<and> Cmd_Args (mountCmd ''/usr/libexec/apptainer/bin/squashfuse''
        \<lparr>Source = ''/var/tmp/image.sif'', Target = ''/mnt/x'', Offset = 1024\<rparr>)
     = [''/usr/libexec/apptainer/bin/squashfuse'', ''-f'', ''-o'', ''offset=1024'',
        ''/var/tmp/image.sif'', ''/mnt/x'']"
proof -
  let ?bin = "''/usr/libexec/apptainer/bin/squashfuse''"
  let ?p = "\<lparr>Source = ''/proc/self/fd/7'', Target = ''/mnt/x'', Offset = 1024\<rparr>"
  let ?q = "\<lparr>Source = ''/var/tmp/image.sif'', Target = ''/mnt/x'', Offset = 1024\<rparr>"
  have f: "strconv_FormatUint 7 = ''7''" "strconv_FormatUint 1024 = ''1024''"
    by (simp_all add: digitChar_def strconv_FormatUint.simps)
  have s: "(7::nat) < 2 ^ 63 \<and> Source ?p = ''/proc/self/fd/'' @ strconv_FormatUint 7"
    by (simp add: f)
  have d: "path_Dir (Source ?q) \<noteq> ''/proc/self/fd''"
    by (simp add: path_Dir_def path_Clean_def afterLastSlash_def)
  from squashfuse_mount_command [of ?bin ?p "Inr True" "\<lambda>k. MountInfo []" 7] s
  have 1: "fst (Mount ?bin ?p (Inr True) (\<lambda>k. MountInfo [])) = mountCmd ?bin ?p"
    and 2: "Cmd_Args (mountCmd ?bin ?p)
              = [?bin, ''-f'', ''-o'', ''offset='' @ strconv_FormatUint (unat (Offset ?p)),
                 ''/proc/self/fd/3'', Target ?p]"
    and 3: "ExtraFiles (mountCmd ?bin ?p) = [of_nat 7]"
    by blast+
  from squashfuse_mount_command [of ?bin ?q "Inr True" "\<lambda>k. MountInfo []" 0] d
  have 4: "Cmd_Args (mountCmd ?bin ?q)
              = [?bin, ''-f'', ''-o'', ''offset='' @ strconv_FormatUint (unat (Offset ?q)),
                 Source ?q, Target ?q]"
    by blast
  show ?thesis
    unfolding 1 using 2 3 4 by (simp add: f)
qed

subsection \<open>The files section\<close>

text \<open>
  Claim C10. The claim asks that the splitter always yields a token for a non-empty,
  non-comment line of a \<open>%files\<close> section, so that \<open>lineSubs[0]\<close> is in bounds. It
  does not: on the line that consists of one double quote the expression matches
  nothing (the double-quoted alternative wants a closing quote), and
  \<open>parseTokenSection\<close> reads \<open>lineSubs[0]\<close> of an empty slice. The recipe below, a
  header and a \<open>%files\<close> section with that line, makes \<open>ParseDefinitionFile\<close> panic.
\<close>

theorem files_line_without_token_panics:
  "regexp_FindAllString fileSplitter [dquote] = []
   \<and> ParseDefinitionFile
        (''Bootstrap: docker'' @ [newline] @ ''%files'' @ [newline] @ [dquote] @ [newline])
     = Inl (ParserPanic ''index out of range [0] with length 0'')"
  by code_simp

subsection \<open>Invalid sections\<close>

lemma map_of_modifySection:
  "map_of (modifySection key f sections)
     = (map_of sections)(key \<mapsto> f (case map_of sections key of
                                        None \<Rightarrow> \<lparr> Args = [], Script = [] \<rparr> | Some s \<Rightarrow> s))"
  by (simp add: modifySection_def update_conv')

lemma keys_modifySection:
  "fst ` set (modifySection key f sections) = insert key (fst ` set sections)"
proof -
  have "dom (map_of (modifySection key f sections)) = insert key (dom (map_of sections))"
    by (simp add: map_of_modifySection)
  then show ?thesis by (simp add: dom_map_of_conv_image_fst)
qed

lemma ensure_sections_keys:
  "fst ` set (foldl (\<lambda>m section. modifySection section (\<lambda>s. s) m) sections ks)
     = fst ` set sections \<union> set ks"
  by (induction ks arbitrary: sections) (auto simp: keys_modifySection)

lemma ensure_sections_map_of:
  "k \<notin> set ks \<Longrightarrow>
     map_of (foldl (\<lambda>m section. modifySection section (\<lambda>s. s) m) sections ks) k
       = map_of sections k"
  by (induction ks arbitrary: sections) (auto simp: map_of_modifySection)

lemma isEmpty_CustomData: "CustomData d \<noteq> None \<Longrightarrow> \<not> isEmpty d"
proof
  assume c: "CustomData d \<noteq> None" and "isEmpty d"
  then have "CustomData (d\<lparr>Raw := [], FullRaw := []\<rparr>) = CustomData zeroDefinition"
    by (simp only: isEmpty_def)
  with c show False
    by (simp add: zeroDefinition_def)
qed

lemma map_of_remaining:
  "map_of (map (\<lambda>(k, s). (k, Script s)) (filter (\<lambda>(k, s). k \<notin> set vs) xs)) k
     = (if k \<in> set vs then None else map_option Script (map_of xs k))"
  by (induction xs) auto

lemma remaining_keys:
  "set (filter (\<lambda>k. \<not> isAppKey k) (map fst (removeStandard (initSections sections))))
     = offendingKeys sections"
proof -
  let ?s1 = "initSections sections"
  have "fst ` set (removeStandard ?s1) = {k \<in> fst ` set ?s1. k \<notin> set validSections}"
    unfolding removeStandard_def by force
  also have "\<dots> = {k \<in> fst ` set sections. k \<notin> set validSections}"
    by (auto simp: ensure_sections_keys initSections_def)
  finally show ?thesis
    by (auto simp: offendingKeys_def)
qed

text \<open>
  Claim C6. Among the sections left after the eleven known ones are taken out, those
  whose key does not start with the name of an app section make
  \<open>populateDefinition\<close> fail with an \<open>InvalidSectionError\<close> that lists exactly these
  keys. When there is none, no such error is raised, and every remaining section,
  which then is an app section, is kept in the custom data of the definition that is
  returned, under its key and with its body.
\<close>

theorem invalid_sections_listed:
  "(offendingKeys sections \<noteq> {} \<longrightarrow>
      (\<exists>keys. populateDefinition sections files appOrder d = Inl (InvalidSectionError keys)
              \<and> set keys = offendingKeys sections))
   \<and> (offendingKeys sections = {} \<longrightarrow>
        (\<forall>keys. populateDefinition sections files appOrder d \<noteq> Inl (InvalidSectionError keys))
        \<and> (\<forall>k s. map_of sections k = Some s \<and> k \<notin> set validSections \<longrightarrow>
              (\<exists>d' custom. populateDefinition sections files appOrder d = Inr d'
                 \<and> CustomData d' = Some custom \<and> map_of custom k = Some (Script s))))"
proof (intro conjI impI allI)
  let ?s1 = "initSections sections"
  let ?rest = "removeStandard ?s1"
  let ?keys = "filter (\<lambda>k. \<not> isAppKey k) (map fst ?rest)"
  let ?custom = "map (\<lambda>(k, s). (k, Script s)) ?rest"
  have keys: "set ?keys = offendingKeys sections"
    by (rule remaining_keys)
  {
    assume a: "offendingKeys sections \<noteq> {}"
    have "set ?keys \<noteq> {}"
      unfolding keys by (rule a)
    then have k1: "?keys \<noteq> []"
      by (metis empty_set)
    have k2: "?rest \<noteq> []"
    proof
      assume "?rest = []"
      then have "?keys = []" by (simp only: list.map filter.simps)
      with k1 show False by simp
    qed
    have "populateDefinition sections files appOrder d = Inl (InvalidSectionError ?keys)"
      using k1 k2 unfolding populateDefinition_def Let_def isAppKey_def [symmetric] by simp
    then show "\<exists>keys. populateDefinition sections files appOrder d = Inl (InvalidSectionError keys)
              \<and> set keys = offendingKeys sections"
      using keys by blast
  }
  {
    assume none: "offendingKeys sections = {}"
    have "set ?keys = {}"
      unfolding keys by (rule none)
    then have e: "?keys = []"
      by (simp only: set_empty)
    show "populateDefinition sections files appOrder d \<noteq> Inl (InvalidSectionError ks)" for ks
      using e unfolding populateDefinition_def Let_def isAppKey_def [symmetric] by simp
    fix k s
    assume ks: "map_of sections k = Some s \<and> k \<notin> set validSections"
    then have m1: "map_of ?s1 k = Some s"
      by (simp add: ensure_sections_map_of initSections_def)
    then have "(k, s) \<in> set ?s1"
      by (rule map_of_SomeD)
    then have ne: "?rest \<noteq> []"
      using ks by (auto simp: filter_empty_conv removeStandard_def)
    have c: "map_of ?custom k = Some (Script s)"
      using ks m1 by (simp add: map_of_remaining removeStandard_def)
    let ?d3 = "(populateData ?s1 files d)\<lparr>CustomData := Some ?custom, AppOrder := appOrder\<rparr>"
    have "\<not> isEmpty ?d3"
      by (rule isEmpty_CustomData) simp
    then have "populateDefinition sections files appOrder d = Inr ?d3"
      using ne e unfolding populateDefinition_def Let_def isAppKey_def [symmetric] by simp
    moreover have "CustomData ?d3 = Some ?custom"
      by simp
    ultimately show "\<exists>d' custom. populateDefinition sections files appOrder d = Inr d'
                 \<and> CustomData d' = Some custom \<and> map_of custom k = Some (Script s)"
      using c by blast
  }
qed

theorem invalid_sections_listed_witness:
  "ParseDefinitionFile
     (''Bootstrap: docker'' @ [newline] @ ''%extra'' @ [newline] @ ''x'' @ [newline])
     = Inl (InvalidSectionError [''extra''])
   \<and> (\<exists>keys. populateDefinition [(''extra'', \<lparr>Args = [], Script = ''x''\<rparr>)] [] []
                 zeroDefinition = Inl (InvalidSectionError keys)
              \<and> set keys = {''extra''})
   \<and> (\<exists>d' custom. populateDefinition [(''appinstall foo'', \<lparr>Args = [], Script = ''make''\<rparr>)] [] []
                      zeroDefinition = Inr d'
                 \<and> CustomData d' = Some custom
                 \<and> map_of custom ''appinstall foo'' = Some ''make'')"
proof -
  have p: "ParseDefinitionFile
     (''Bootstrap: docker'' @ [newline] @ ''%extra'' @ [newline] @ ''x'' @ [newline])
     = Inl (InvalidSectionError [''extra''])"
    by code_simp
  have o1: "offendingKeys [(''extra'', \<lparr>Args = [], Script = ''x''\<rparr>)] = {''extra''}"
    by (auto simp: offendingKeys_def validSections_def isAppKey_def appSections_def)
  have o2: "offendingKeys [(''appinstall foo'', \<lparr>Args = [], Script = ''make''\<rparr>)] = {}"
    by (auto simp: offendingKeys_def validSections_def isAppKey_def appSections_def)
  have v: "''appinstall foo'' \<notin> set validSections"
    by (simp add: validSections_def)
  from invalid_sections_listed
         [of "[(''extra'', \<lparr>Args = [], Script = ''x''\<rparr>)]" "[]" "[]" zeroDefinition] o1
  have 1: "\<exists>keys. populateDefinition [(''extra'', \<lparr>Args = [], Script = ''x''\<rparr>)] [] []
                 zeroDefinition = Inl (InvalidSectionError keys)
              \<and> set keys = {''extra''}"
    by simp
  let ?x = "\<lparr>Args = [], Script = ''make''\<rparr>"
  have m: "map_of [(''appinstall foo'', ?x)] ''appinstall foo'' = Some ?x
           \<and> ''appinstall foo'' \<notin> set validSections"
    using v by simp
  from invalid_sections_listed [of "[(''appinstall foo'', ?x)]" "[]" "[]" zeroDefinition] o2 m
  have "\<exists>d' custom. populateDefinition [(''appinstall foo'', ?x)] [] [] zeroDefinition = Inr d'
                 \<and> CustomData d' = Some custom
                 \<and> map_of custom ''appinstall foo'' = Some (Script ?x)"
    by blast
  then have 2: "\<exists>d' custom. populateDefinition [(''appinstall foo'', ?x)] [] [] zeroDefinition = Inr d'
                 \<and> CustomData d' = Some custom
                 \<and> map_of custom ''appinstall foo'' = Some ''make''"
    by simp
  from p 1 2 show ?thesis by blast
qed

subsection \<open>Header keywords\<close>







lemma Split_nonempty: "strings_Split s c \<noteq> []"
  by (induction s) (auto split: list.splits)



lemma keys_update: "fst ` set (AList.update k v al) = insert k (fst ` set al)"
  by (induction al) auto









subsection \<open>Continuation lines of the header\<close>

lemma continuedValue_newline:
  "continuedValue (w @ [backslash, CHR ''n'', backslash]) = w @ [newline]"
proof -
  have 1: "strings_TrimSuffix (w @ [backslash, CHR ''n'', backslash]) [backslash]
             = w @ [backslash, CHR ''n'']"
    by (simp add: strings_TrimSuffix_def suffix_def)
  have 2: "strings_HasSuffix (w @ [backslash, CHR ''n'']) [backslash, CHR ''n'']"
    by (simp add: strings_HasSuffix_def suffix_def)
  have 3: "strings_TrimSuffix (w @ [backslash, CHR ''n'']) [backslash, CHR ''n''] = w"
    by (simp add: strings_TrimSuffix_def suffix_def)
  show ?thesis
    unfolding continuedValue_def Let_def 1 using 2 3 by simp
qed

lemma continuedValue_plain:
  "\<not> suffix [backslash, CHR ''n''] w \<Longrightarrow> continuedValue (w @ [backslash]) = w"
  by (simp add: continuedValue_def Let_def strings_TrimSuffix_def strings_HasSuffix_def suffix_def)

lemma doHeaderLine_continue_start:
  assumes "strings_TrimSpace line0 \<noteq> []"
    and "\<not> strings_HasPrefix (strings_TrimSpace line0) ''#''"
    and "strings_SplitN (hd (strings_Split (strings_TrimSpace line0) (CHR ''#''))) (CHR '':'') 2
           = [k, v]"
    and "strings_HasSuffix (strings_TrimSpace v) [backslash]"
  shows "doHeaderLine line0 (header, keyCont, [], d)
           = Inr (header, strings_ToLower (strings_TrimSpace k),
                  continuedValue (strings_TrimSpace v), d)"
  using assms by (simp add: doHeaderLine_def Let_def)

lemma doHeaderLine_continue_next:
  assumes "valCont \<noteq> []"
    and "strings_TrimSpace line1 \<noteq> []"
    and "\<not> strings_HasPrefix (strings_TrimSpace line1) ''#''"
    and "val = valCont @ strings_TrimSpace (hd (strings_Split (strings_TrimSpace line1) (CHR ''#'')))"
  shows "doHeaderLine line1 (header, keyCont, valCont, d)
           = (if strings_HasSuffix val [backslash] then Inr (header, keyCont, continuedValue val, d)
              else if headerKeyOk keyCont then Inr (AList.update keyCont val header, [], [], d)
              else Inl (Errorf (''invalid header keyword found: '' @ keyCont)))"
  using assms by (simp add: doHeaderLine_def Let_def)

text \<open>
  Claim C5. The claim asks that a value that ends in a backslash goes on with the
  next non-blank line, blank lines and comment lines in between being passed over.
  The code means to do so: at a blank or a comment line it keeps the open value, but
  it stores it into \<open>d.Header\<close> (line 372), the header of the definition, instead of
  the local map \<open>header\<close> that every other line writes to (line 410). When
  \<open>ParseDefinitionFile\<close> calls \<open>doHeader\<close> the header of the definition is still
  nil, so the store panics: the two recipes below, with a blank line and with a
  comment line behind the open value, make the parser panic. Without a line in
  between the value is continued, as the third recipe shows.
\<close>

theorem header_continuation_blank_line_panics:
  "ParseDefinitionFile
     (''Bootstrap: docker'' @ [newline] @ ''From: a'' @ [backslash, newline] @ [newline]
        @ ''b'' @ [newline])
     = Inl (ParserPanic ''assignment to entry in nil map'')
   \<and> ParseDefinitionFile
        (''Bootstrap: docker'' @ [newline] @ ''From: a'' @ [backslash, newline]
           @ ''# c'' @ [newline] @ ''b'' @ [newline])
     = Inl (ParserPanic ''assignment to entry in nil map'')
   \<and> map_sum id Header
        (ParseDefinitionFile
           (''Bootstrap: docker'' @ [newline] @ ''From: a'' @ [backslash, newline]
              @ ''b'' @ [newline]))
     = Inr (Some [(''bootstrap'', ''docker''), (''from'', ''ab'')])"
  by code_simp

subsection \<open>Multi-stage recipes\<close>















subsection \<open>Label precedence\<close>

lemma map_of_mergeLabel:
  "map_of (mergeLabel force (key, value) labels) k
     = (if k = key
        then (if map_of labels key \<noteq> None \<and> \<not> force then map_of labels key else Some value)
        else map_of labels k)"
  by (auto simp: mergeLabel_def update_conv')

lemma map_of_merge_fold:
  "distinct (map fst kvs) \<Longrightarrow>
     map_of (foldl (\<lambda>l kv. mergeLabel force kv l) labels kvs) k
       = (case map_of kvs k of
            None \<Rightarrow> map_of labels k
          | Some v \<Rightarrow> if map_of labels k \<noteq> None \<and> \<not> force then map_of labels k else Some v)"
proof (induction kvs arbitrary: labels)
  case Nil
  then show ?case by simp
next
  case (Cons kv kvs)
  obtain key vl where kv: "kv = (key, vl)" by (cases kv)
  from Cons.prems have d: "distinct (map fst kvs)" and nk: "key \<notin> fst ` set kvs"
    by (simp_all add: kv)
  have none: "map_of kvs key = None"
    using nk by (simp add: map_of_eq_None_iff)
  show ?case
  proof (cases "k = key")
    case True
    then show ?thesis
      using Cons.IH [OF d, of "mergeLabel force (key, vl) labels"] none
      by (simp add: kv map_of_mergeLabel)
  next
    case False
    then have ml: "map_of (mergeLabel force (key, vl) labels) k = map_of labels k"
      by (simp add: map_of_mergeLabel)
    show ?thesis
      using False Cons.IH [OF d, of "mergeLabel force (key, vl) labels"] unfolding ml
      by (simp add: kv)
  qed
qed

lemma keys_mergeLabel: "fst ` set labels \<subseteq> fst ` set (mergeLabel force kv labels)"
  by (auto simp: mergeLabel_def keys_update)

lemma keys_merge_fold:
  "fst ` set labels \<subseteq> fst ` set (foldl (\<lambda>l kv. mergeLabel force kv l) labels kvs)"
proof (induction kvs arbitrary: labels)
  case Nil
  then show ?case by simp
next
  case (Cons kv kvs)
  have "fst ` set labels \<subseteq> fst ` set (mergeLabel force kv labels)"
    by (rule keys_mergeLabel)
  also have "\<dots> \<subseteq> fst ` set (foldl (\<lambda>l kv. mergeLabel force kv l) (mergeLabel force kv labels) kvs)"
    by (rule Cons.IH)
  finally show ?case by simp
qed

lemma keys_mergeRecipeLabels: "fst ` set labels \<subseteq> fst ` set (mergeRecipeLabels b labels)"
  using keys_merge_fold by (simp add: mergeRecipeLabels_def)

lemma keys_putAll: "fst ` set labels \<subseteq> fst ` set (putAll m labels)"
proof (induction m arbitrary: labels)
  case Nil
  then show ?case by (simp add: putAll_def)
next
  case (Cons kv m)
  have "fst ` set labels \<subseteq> fst ` set (AList.update (fst kv) (snd kv) labels)"
    by (auto simp: keys_update)
  also have "\<dots> \<subseteq> fst ` set (putAll m (AList.update (fst kv) (snd kv) labels))"
    by (rule Cons.IH)
  finally show ?case by (simp add: putAll_def)
qed

lemma addBuildLabels_auto:
  "{''org.label-schema.schema-version'', ''org.label-schema.build-date'',
    ''org.label-schema.usage.apptainer.version'', ''org.label-schema.build-arch''}
     \<subseteq> fst ` set (addBuildLabels env b labels)"
proof -
  have 1: "{''org.label-schema.schema-version'', ''org.label-schema.build-date'',
            ''org.label-schema.usage.apptainer.version''}
     \<subseteq> fst ` set (AList.update ''org.label-schema.usage.apptainer.version'' (PACKAGE_VERSION env)
          (AList.update ''org.label-schema.build-date'' (timeString env)
            (AList.update ''org.label-schema.schema-version'' ''1.0'' labels)))"
    (is "?A \<subseteq> fst ` set ?l3")
    by (simp add: keys_update)
  have up: "?A \<subseteq> fst ` set l \<Longrightarrow> ?A \<subseteq> fst ` set (AList.update k v l)"
    for l :: gomap and k v :: string
    by (auto simp: keys_update)
  have pa: "?A \<subseteq> fst ` set l \<Longrightarrow> ?A \<subseteq> fst ` set (putAll m l)"
    for l m :: gomap
    using keys_putAll by blast
  have "?A \<subseteq> fst ` set (addBuildLabels env b labels)"
    unfolding addBuildLabels_def Let_def
    by (intro up) (auto intro!: up pa 1 simp del: insert_subset)
  moreover have "''org.label-schema.build-arch'' \<in> fst ` set (addBuildLabels env b labels)"
    unfolding addBuildLabels_def Let_def by (simp add: keys_update)
  ultimately show ?thesis by simp
qed

lemma map_of_putAll:
  "distinct (map fst m) \<Longrightarrow> map_of (putAll m labels) = map_of labels ++ map_of m"
proof (induction m arbitrary: labels)
  case Nil
  then show ?case by (simp add: putAll_def)
next
  case (Cons kv m)
  obtain key vl where kv: "kv = (key, vl)" by (cases kv)
  from Cons.prems have d: "distinct (map fst m)" and nk: "key \<notin> fst ` set m"
    by (simp_all add: kv)
  have none: "map_of m key = None"
    using nk by (simp add: map_of_eq_None_iff)
  have "map_of (putAll (kv # m) labels) = map_of (putAll m (AList.update key vl labels))"
    by (simp add: putAll_def kv)
  also have "\<dots> = map_of (AList.update key vl labels) ++ map_of m"
    by (rule Cons.IH [OF d])
  also have "\<dots> = map_of labels ++ map_of (kv # m)"
  proof (rule ext)
    fix k
    show "(map_of (AList.update key vl labels) ++ map_of m) k
            = (map_of labels ++ map_of (kv # m)) k"
      using none
      by (cases "k = key") (simp_all add: kv map_add_def update_conv' split: option.splits)
  qed
  finally show ?case .
qed

lemma distinct_labelLine:
  "distinct (map fst labels) \<Longrightarrow> distinct (map fst (labelLine line labels))"
  by (simp add: labelLine_def Let_def distinct_update)

lemma distinct_foldl_labelLine:
  "distinct (map fst labels) \<Longrightarrow>
     distinct (map fst (foldl (\<lambda>labels line. labelLine line labels) labels ls))"
  by (induction ls arbitrary: labels) (simp_all add: distinct_labelLine)

lemma distinct_GetLabels: "distinct (map fst (GetLabels content))"
  by (simp add: GetLabels_def distinct_foldl_labelLine)

text \<open>A function on maps overlays its argument when its result is the argument with
  the bindings it puts into the empty map laid over it. Every step of
  \<open>addBuildLabels\<close> does so.\<close>

lemma overlay_update:
  "map_of (AList.update k v l) = map_of l ++ map_of (AList.update k v [])"
  by (rule ext) (simp add: update_conv' map_add_def)

lemma overlay_comp:
  assumes "\<And>l. map_of (F l) = map_of l ++ map_of (F [])"
    and "\<And>l. map_of (G l) = map_of l ++ map_of (G [])"
  shows "map_of (G (F l)) = map_of l ++ map_of (G (F []))"
proof -
  have "map_of (G (F l)) = (map_of l ++ map_of (F [])) ++ map_of (G [])"
    by (simp only: assms(2) [of "F l"] assms(1) [of l])
  also have "\<dots> = map_of l ++ (map_of (F []) ++ map_of (G []))"
    by simp
  also have "map_of (F []) ++ map_of (G []) = map_of (G (F []))"
    by (simp only: assms(2) [of "F []"])
  finally show ?thesis .
qed

lemma overlay_putAll:
  "map_of (putAll m l) = map_of l ++ map_of (putAll m [])"
proof (induction m arbitrary: l rule: rev_induct)
  case Nil
  then show ?case by (simp add: putAll_def)
next
  case (snoc kv m)
  have p: "putAll (m @ [kv]) x = AList.update (fst kv) (snd kv) (putAll m x)" for x
    by (simp add: putAll_def)
  show ?case
    unfolding p
    by (rule overlay_comp [where F = "putAll m" and G = "AList.update (fst kv) (snd kv)"])
       (rule snoc.IH, rule overlay_update)
qed

lemma overlay_addBuildLabels:
  "map_of (addBuildLabels env b l) = map_of l ++ map_of (addBuildLabels env b [])"
proof -
  let ?F1 = "AList.update ''org.label-schema.schema-version'' ''1.0''"
  let ?F2 = "AList.update ''org.label-schema.build-date'' (timeString env)"
  let ?F3 = "AList.update ''org.label-schema.usage.apptainer.version'' (PACKAGE_VERSION env)"
  let ?F4 = "\<lambda>l. if RunSection b ''help'' \<and> Script (Help (Recipe b)) \<noteq> []
                 then AList.update ''org.label-schema.usage.apptainer.runscript.help''
                        ''/.singularity.d/runscript.help''
                       (AList.update ''org.label-schema.usage''
                          ''/.singularity.d/runscript.help'' l)
                 else l"
  let ?F5 = "\<lambda>l. if \<not> Update (Opts b) \<or> Force (Opts b)
                 then putAll (map (\<lambda>(key, value).
                                 (''org.label-schema.usage.singularity.deffile.'' @ key, value))
                               (case Header (Recipe b) of None \<Rightarrow> [] | Some m \<Rightarrow> m)) l
                 else l"
  let ?F6 = "\<lambda>l. if Tag (Opts b) \<noteq> [] \<and> Digest (Opts b) \<noteq> []
                 then AList.update ''org.opencontainers.image.base.digest'' (Digest (Opts b))
                       (AList.update ''org.opencontainers.image.base.name'' (Tag (Opts b)) l)
                 else l"
  let ?F7 = "AList.update ''org.label-schema.build-arch'' (archOf env (Arch (Opts b)))"
  have id: "map_of l = map_of l ++ map_of ([] :: gomap)" for l :: gomap
    by simp
  have o4: "map_of (?F4 l) = map_of l ++ map_of (?F4 [])" for l
  proof (cases "RunSection b ''help'' \<and> Script (Help (Recipe b)) \<noteq> []")
    case True
    have "map_of (AList.update ''org.label-schema.usage.apptainer.runscript.help''
                        ''/.singularity.d/runscript.help''
                       (AList.update ''org.label-schema.usage''
                          ''/.singularity.d/runscript.help'' l))
          = map_of l ++ map_of (AList.update ''org.label-schema.usage.apptainer.runscript.help''
                        ''/.singularity.d/runscript.help''
                       (AList.update ''org.label-schema.usage''
                          ''/.singularity.d/runscript.help'' []))"
      by (rule overlay_comp) (rule overlay_update)+
    then show ?thesis
      by (simp only: True simp_thms if_True)
  next
    case False
    show ?thesis
      by (simp only: False if_False) simp
  qed
  have o5: "map_of (?F5 l) = map_of l ++ map_of (?F5 [])" for l
  proof (cases "\<not> Update (Opts b) \<or> Force (Opts b)")
    case True
    show ?thesis
      by (simp only: True if_True) (rule overlay_putAll)
  next
    case False
    show ?thesis
      by (simp only: False if_False) simp
  qed
  have o6: "map_of (?F6 l) = map_of l ++ map_of (?F6 [])" for l
  proof (cases "Tag (Opts b) \<noteq> [] \<and> Digest (Opts b) \<noteq> []")
    case True
    have "map_of (AList.update ''org.opencontainers.image.base.digest'' (Digest (Opts b))
                       (AList.update ''org.opencontainers.image.base.name'' (Tag (Opts b)) l))
          = map_of l ++ map_of (AList.update ''org.opencontainers.image.base.digest''
                                  (Digest (Opts b))
                       (AList.update ''org.opencontainers.image.base.name'' (Tag (Opts b)) []))"
      by (rule overlay_comp) (rule overlay_update)+
    then show ?thesis
      by (simp only: True simp_thms if_True)
  next
    case False
    show ?thesis
      by (simp only: False if_False) simp
  qed
  have o12: "map_of (?F2 (?F1 l)) = map_of l ++ map_of (?F2 (?F1 []))" for l
    by (rule overlay_comp) (rule overlay_update)+
  have o13: "map_of (?F3 (?F2 (?F1 l))) = map_of l ++ map_of (?F3 (?F2 (?F1 [])))" for l
    by (rule overlay_comp [where F = "\<lambda>l. ?F2 (?F1 l)"]) (rule o12, rule overlay_update)
  have o14: "map_of (?F4 (?F3 (?F2 (?F1 l)))) = map_of l ++ map_of (?F4 (?F3 (?F2 (?F1 []))))" for l
    by (rule overlay_comp [where F = "\<lambda>l. ?F3 (?F2 (?F1 l))" and G = ?F4]) (rule o13, rule o4)
  have o15: "map_of (?F5 (?F4 (?F3 (?F2 (?F1 l)))))
               = map_of l ++ map_of (?F5 (?F4 (?F3 (?F2 (?F1 [])))))" for l
    by (rule overlay_comp [where F = "\<lambda>l. ?F4 (?F3 (?F2 (?F1 l)))" and G = ?F5]) (rule o14, rule o5)
  have o16: "map_of (?F6 (?F5 (?F4 (?F3 (?F2 (?F1 l))))))
               = map_of l ++ map_of (?F6 (?F5 (?F4 (?F3 (?F2 (?F1 []))))))" for l
    by (rule overlay_comp [where F = "\<lambda>l. ?F5 (?F4 (?F3 (?F2 (?F1 l))))" and G = ?F6])
       (rule o15, rule o6)
  have o17: "map_of (?F7 (?F6 (?F5 (?F4 (?F3 (?F2 (?F1 l)))))))
               = map_of l ++ map_of (?F7 (?F6 (?F5 (?F4 (?F3 (?F2 (?F1 [])))))))" for l
    by (rule overlay_comp [where F = "\<lambda>l. ?F6 (?F5 (?F4 (?F3 (?F2 (?F1 l)))))" and G = ?F7])
       (rule o16, rule overlay_update)
  have e: "addBuildLabels env b x = ?F7 (?F6 (?F5 (?F4 (?F3 (?F2 (?F1 x))))))" for x
    by (simp add: addBuildLabels_def Let_def)
  show ?thesis
    unfolding e by (rule o17)
qed

lemma map_of_update_other: "k \<noteq> k' \<Longrightarrow> map_of (AList.update k' v l) k = map_of l k"
  by (simp add: update_conv')

lemma map_of_putAll_other:
  "k \<notin> fst ` set m \<Longrightarrow> map_of (putAll m l) k = map_of l k"
proof (induction m arbitrary: l)
  case Nil
  then show ?case by (simp add: putAll_def)
next
  case (Cons kv m)
  have "map_of (putAll (kv # m) l) k = map_of (putAll m (AList.update (fst kv) (snd kv) l)) k"
    by (simp add: putAll_def)
  also have "\<dots> = map_of (AList.update (fst kv) (snd kv) l) k"
    using Cons.prems by (intro Cons.IH) simp
  also have "\<dots> = map_of l k"
    using Cons.prems by (simp add: update_conv')
  finally show ?case .
qed

text \<open>The values of the automatic labels. The labels made of the header of the
  recipe have keys that start with \<open>org.label-schema.usage.singularity.deffile.\<close>, so
  they leave the automatic labels alone.\<close>

lemma deffile_keys:
  "k \<in> fst ` set (map (\<lambda>(key, value).
           (''org.label-schema.usage.singularity.deffile.'' @ key, value)) m) \<Longrightarrow>
     prefix ''org.label-schema.usage.singularity.deffile.'' k"
  by auto

lemma autoLabels_values:
  "autoLabels env b ''org.label-schema.schema-version'' = Some ''1.0''"
  "autoLabels env b ''org.label-schema.build-date'' = Some (timeString env)"
  "autoLabels env b ''org.label-schema.usage.apptainer.version'' = Some (PACKAGE_VERSION env)"
  "autoLabels env b ''org.label-schema.build-arch'' = Some (archOf env (Arch (Opts b)))"
proof -
  let ?m = "map (\<lambda>(key, value). (''org.label-schema.usage.singularity.deffile.'' @ key, value))
              (case Header (Recipe b) of None \<Rightarrow> [] | Some m \<Rightarrow> m)"
  have np: "\<not> prefix ''org.label-schema.usage.singularity.deffile.''
                  ''org.label-schema.schema-version''"
    "\<not> prefix ''org.label-schema.usage.singularity.deffile.'' ''org.label-schema.build-date''"
    "\<not> prefix ''org.label-schema.usage.singularity.deffile.''
         ''org.label-schema.usage.apptainer.version''"
    by code_simp+
  have n: "''org.label-schema.schema-version'' \<notin> fst ` set ?m"
    "''org.label-schema.build-date'' \<notin> fst ` set ?m"
    "''org.label-schema.usage.apptainer.version'' \<notin> fst ` set ?m"
    using np deffile_keys by blast+
  show "autoLabels env b ''org.label-schema.schema-version'' = Some ''1.0''"
    using n(1) by (simp add: autoLabels_def addBuildLabels_def Let_def update_conv'
                     map_of_putAll_other del: set_map)
  show "autoLabels env b ''org.label-schema.build-date'' = Some (timeString env)"
    using n(2) by (simp add: autoLabels_def addBuildLabels_def Let_def update_conv'
                     map_of_putAll_other del: set_map)
  show "autoLabels env b ''org.label-schema.usage.apptainer.version''
          = Some (PACKAGE_VERSION env)"
    using n(3) by (simp add: autoLabels_def addBuildLabels_def Let_def update_conv'
                     map_of_putAll_other del: set_map)
  show "autoLabels env b ''org.label-schema.build-arch'' = Some (archOf env (Arch (Opts b)))"
    by (simp add: autoLabels_def addBuildLabels_def Let_def update_conv')
qed

lemma collectLabels_overlay:
  assumes "collectLabels env b = Inr labels"
  shows "map_of labels = labelsJSON env ++ buildLabels env ++ autoLabels env b"
proof -
  from assms obtain existing where e: "existingLabels env = Inr existing"
    unfolding collectLabels_def by (auto split: sum.splits)
  let ?l0 = "case existing of None \<Rightarrow> [] | Some m \<Rightarrow> m"
  have j: "labelsJSON env = map_of ?l0"
    by (simp add: labelsJSON_def e split: option.splits)
  from assms e consider
      (present) content where "buildLabelsFile env = Inr (Some content)"
        and "labels = addBuildLabels env b (putAll (GetLabels content) ?l0)"
    | (absent) "buildLabelsFile env = Inr None" and "labels = addBuildLabels env b ?l0"
    unfolding collectLabels_def Let_def by (auto split: sum.splits option.splits)
  then show ?thesis
  proof cases
    case present
    have "map_of labels = map_of (putAll (GetLabels content) ?l0) ++ autoLabels env b"
      unfolding present(2) autoLabels_def by (rule overlay_addBuildLabels)
    also have "map_of (putAll (GetLabels content) ?l0) = map_of ?l0 ++ map_of (GetLabels content)"
      by (rule map_of_putAll) (rule distinct_GetLabels)
    finally show ?thesis
      by (simp add: j buildLabels_def present(1))
  next
    case absent
    have "map_of labels = map_of ?l0 ++ autoLabels env b"
      unfolding absent(2) autoLabels_def by (rule overlay_addBuildLabels)
    then show ?thesis
      by (simp add: j buildLabels_def absent(1))
  qed
qed

text \<open>
  Claim C2, as amended. Let \<open>collected\<close> be the labels collected before the recipe's
  labels are merged: those of the existing \<open>labels.json\<close>, overlaid with those of the
  build labels file and then with the automatic labels of the build (\<open>++\<close> lets the
  map on its right win). When the labels section is run, a label \<open>k\<close> of the recipe
  with value \<open>v\<close> is written with the collected value if \<open>k\<close> is among the collected
  labels and the force option is off, and with the recipe's value \<open>v\<close> if the force
  option is on or \<open>k\<close> is new; every other label is written with its collected value.
  The automatic labels \<open>schema-version\<close>, \<open>build-date\<close>, \<open>usage.apptainer.version\<close> and
  \<open>build-arch\<close> are among the collected labels, with the values of the build, and
  they are among the labels written in every case. The labels of the recipe are a Go
  map, so their keys are distinct.
\<close>

theorem label_precedence:
  assumes "insertLabelsJSON env b = Inr result"
    and "distinct (map fst (Labels (Recipe b)))"
    and "collected = labelsJSON env ++ buildLabels env ++ autoLabels env b"
  shows "(\<forall>k. map_of result k
            = (if RunSection b ''labels''
               then (case map_of (Labels (Recipe b)) k of
                       None \<Rightarrow> collected k
                     | Some v \<Rightarrow> if collected k \<noteq> None \<and> \<not> Force (Opts b) then collected k
                                 else Some v)
               else collected k))
     \<and> collected ''org.label-schema.schema-version'' = Some ''1.0''
     \<and> collected ''org.label-schema.build-date'' = Some (timeString env)
     \<and> collected ''org.label-schema.usage.apptainer.version'' = Some (PACKAGE_VERSION env)
     \<and> collected ''org.label-schema.build-arch'' = Some (archOf env (Arch (Opts b)))
     \<and> {''org.label-schema.schema-version'', ''org.label-schema.build-date'',
         ''org.label-schema.usage.apptainer.version'', ''org.label-schema.build-arch''}
          \<subseteq> fst ` set result"
proof -
  from assms(1) obtain labels where
    c: "collectLabels env b = Inr labels" and r: "result = mergeRecipeLabels b labels"
    unfolding insertLabelsJSON_def by (auto split: sum.splits option.splits)
  have l: "map_of labels = collected"
    unfolding assms(3) using c by (rule collectLabels_overlay)
  have m0: "map_of result k
     = (if RunSection b ''labels''
        then (case map_of (Labels (Recipe b)) k of
                None \<Rightarrow> map_of labels k
              | Some v \<Rightarrow> if map_of labels k \<noteq> None \<and> \<not> Force (Opts b) then map_of labels k
                          else Some v)
        else map_of labels k)" for k
  proof (cases "RunSection b ''labels'' \<and> Labels (Recipe b) \<noteq> []")
    case True
    then show ?thesis
      using map_of_merge_fold [OF assms(2)] by (simp add: r mergeRecipeLabels_def)
  next
    case False
    then show ?thesis
      by (auto simp: r mergeRecipeLabels_def)
  qed
  note m = m0 [unfolded l]
  have v: "collected ''org.label-schema.schema-version'' = Some ''1.0''"
    "collected ''org.label-schema.build-date'' = Some (timeString env)"
    "collected ''org.label-schema.usage.apptainer.version'' = Some (PACKAGE_VERSION env)"
    "collected ''org.label-schema.build-arch'' = Some (archOf env (Arch (Opts b)))"
    unfolding assms(3) by (simp_all add: autoLabels_values)
  have "\<exists>l0. labels = addBuildLabels env b l0"
    using c unfolding collectLabels_def Let_def
    by (auto split: sum.splits option.splits)
  then have "{''org.label-schema.schema-version'', ''org.label-schema.build-date'',
         ''org.label-schema.usage.apptainer.version'', ''org.label-schema.build-arch''}
          \<subseteq> fst ` set labels"
    using addBuildLabels_auto by blast
  then have a: "{''org.label-schema.schema-version'', ''org.label-schema.build-date'',
         ''org.label-schema.usage.apptainer.version'', ''org.label-schema.build-arch''}
          \<subseteq> fst ` set result"
    using keys_mergeRecipeLabels [of labels b] unfolding r by blast
  from m v a show ?thesis
    by (simp del: insert_subset)
qed

theorem label_precedence_witness:
  "map_sum id (\<lambda>r. map (map_of r) [''maintainer'', ''vendor'', ''flavour'',
                       ''org.label-schema.schema-version'', ''org.label-schema.build-arch''])
     (insertLabelsJSON sampleLabelsEnvExisting sampleBundle)
     = Inr [Some ''old'', Some ''initech'', Some ''salt'', Some ''1.0'', Some ''amd64'']
   \<and> map_sum id (\<lambda>r. map (map_of r) [''maintainer'', ''vendor'', ''flavour'',
                       ''org.label-schema.schema-version'', ''org.label-schema.build-arch''])
       (insertLabelsJSON sampleLabelsEnvExisting
          (sampleBundle\<lparr>Opts := sampleOptions\<lparr>Force := True\<rparr>\<rparr>))
     = Inr [Some ''me'', Some ''initech'', Some ''salt'', Some ''1.0'', Some ''mine'']"
proof -
  let ?env = sampleLabelsEnvExisting
  let ?forced = "sampleBundle\<lparr>Opts := sampleOptions\<lparr>Force := True\<rparr>\<rparr>"
  let ?keys = "[''maintainer'', ''vendor'', ''flavour'',
                ''org.label-schema.schema-version'', ''org.label-schema.build-arch'']"
  have run: "RunSection sampleBundle ''labels''" "RunSection ?forced ''labels''"
    and force: "\<not> Force (Opts sampleBundle)" "Force (Opts ?forced)"
    and dist: "distinct (map fst (Labels (Recipe sampleBundle)))"
      "distinct (map fst (Labels (Recipe ?forced)))"
    and recipe: "map (map_of (Labels (Recipe sampleBundle))) ?keys
                   = [Some ''me'', None, None, None, Some ''mine'']"
      "map (map_of (Labels (Recipe ?forced))) ?keys
                   = [Some ''me'', None, None, None, Some ''mine'']"
    by (simp_all add: RunSection_def sampleBundle_def sampleOptions_def)
  have "case insertLabelsJSON ?env sampleBundle of Inl e \<Rightarrow> False | Inr r \<Rightarrow> True"
    by code_simp
  then obtain r1 where r1: "insertLabelsJSON ?env sampleBundle = Inr r1"
    by (cases "insertLabelsJSON ?env sampleBundle") simp_all
  have "case insertLabelsJSON ?env ?forced of Inl e \<Rightarrow> False | Inr r \<Rightarrow> True"
    by code_simp
  then obtain r2 where r2: "insertLabelsJSON ?env ?forced = Inr r2"
    by (cases "insertLabelsJSON ?env ?forced") simp_all
  have j: "map (labelsJSON ?env) ?keys
             = [Some ''old'', Some ''acme'', None, Some ''0.9'', None]"
    by (simp add: labelsJSON_def sampleLabelsEnvExisting_def sampleLabelsEnv_def)
  have "GetLabels (''vendor initech'' @ [newline] @ ''flavour salt'')
          = [(''vendor'', ''initech''), (''flavour'', ''salt'')]"
    by code_simp
  then have f: "map (buildLabels ?env) ?keys = [None, Some ''initech'', Some ''salt'', None, None]"
    by (simp add: buildLabels_def sampleLabelsEnvExisting_def sampleLabelsEnv_def)
  have a1: "map (map_of (addBuildLabels ?env sampleBundle [])) ?keys
              = [None, None, None, Some ''1.0'', Some ''amd64'']"
    and a2: "map (map_of (addBuildLabels ?env ?forced [])) ?keys
              = [None, None, None, Some ''1.0'', Some ''amd64'']"
    by code_simp+
  have c1: "map (labelsJSON ?env ++ buildLabels ?env ++ autoLabels ?env sampleBundle) ?keys
              = [Some ''old'', Some ''initech'', Some ''salt'', Some ''1.0'', Some ''amd64'']"
    using j f a1 by (simp add: map_add_def autoLabels_def)
  have c2: "map (labelsJSON ?env ++ buildLabels ?env ++ autoLabels ?env ?forced) ?keys
              = [Some ''old'', Some ''initech'', Some ''salt'', Some ''1.0'', Some ''amd64'']"
    using j f a2 by (simp add: map_add_def autoLabels_def)
  from label_precedence [OF r1 dist(1) refl] run(1) force(1) recipe(1) c1
  have 1: "map (map_of r1) ?keys
             = [Some ''old'', Some ''initech'', Some ''salt'', Some ''1.0'', Some ''amd64'']"
    by simp
  from label_precedence [OF r2 dist(2) refl] run(2) force(2) recipe(2) c2
  have 2: "map (map_of r2) ?keys
             = [Some ''me'', Some ''initech'', Some ''salt'', Some ''1.0'', Some ''mine'']"
    by simp
  from 1 2 show ?thesis
    by (simp only: r1 r2 map_sum.simps id_apply)
qed

text \<open>
  Claim C2, as stated, fails where a label collides with an automatic label. The
  recipe's label \<open>org.label-schema.build-arch\<close> is new with respect to
  \<open>labels.json\<close> (there is none), yet without the force option the value written is
  that of the build, not the recipe's. And a \<open>schema-version\<close> that \<open>labels.json\<close>
  already has is not kept: the value of the build replaces it.
\<close>

theorem label_collides_with_build_label:
  "map_sum id (\<lambda>r. map_of r ''org.label-schema.build-arch'')
     (insertLabelsJSON sampleLabelsEnv sampleBundle)
     = Inr (Some ''amd64'')
   \<and> map_sum id (\<lambda>r. map_of r ''org.label-schema.schema-version'')
       (insertLabelsJSON
          (sampleLabelsEnv\<lparr>existingLabels :=
             Inr (Some [(''org.label-schema.schema-version'', ''0.9'')])\<rparr>)
          sampleBundle)
     = Inr (Some ''1.0'')"
  by code_simp

end
